theory Spec2Isabelle
  imports Complex_Main "HOL-Library.Word"
begin

unbundle bit_operations_syntax

type_synonym u8 = "8 word"
type_synonym u16 = "16 word"
type_synonym u32 = "32 word"
type_synonym s32 = "32 word"
type_synonym s64 = "64 word"

section \<open>Intrusive linked lists (unnamed/part_001, cat/lang/DoublyLinkedLists.hpp)\<close>

text \<open>
  A list item holds the two link members the macros are instantiated with. Pointers are
  addresses; the null pointer is \<open>None\<close>. The memory maps every address to the
  item stored there, so that stores through one pointer are seen through every alias.
\<close>

record DListItem =
  item_next :: "nat option"
  item_prev :: "nat option"

type_synonym item_memory = "nat \<Rightarrow> DListItem"

text \<open>The variables a bi-directional list macro works on: the items, \<open>head\<close> and \<open>tail\<close>.\<close>

record bdll =
  items :: item_memory
  head :: "nat option"
  tail :: "nat option"

definition set_next :: "item_memory \<Rightarrow> nat \<Rightarrow> nat option \<Rightarrow> item_memory" where
  "set_next m p v = m(p := (m p)\<lparr>item_next := v\<rparr>)"

definition set_prev :: "item_memory \<Rightarrow> nat \<Rightarrow> nat option \<Rightarrow> item_memory" where
  "set_prev m p v = m(p := (m p)\<lparr>item_prev := v\<rparr>)"

text \<open>\<open>CAT_BDLL_CLEAR(head, tail)\<close>: \<open>head = 0; tail = 0;\<close>\<close>

definition CAT_BDLL_CLEAR :: "bdll \<Rightarrow> bdll" where
  "CAT_BDLL_CLEAR l = l\<lparr>head := None, tail := None\<rparr>"

text \<open>
  \<open>CAT_BDLL_PUSH_BACK(head, tail, obj, next, prev)\<close>:
  \<open>obj->prev = tail; obj->next = 0; if (tail) tail->next = obj; else head = obj; tail = obj;\<close>
\<close>

definition CAT_BDLL_PUSH_BACK :: "bdll \<Rightarrow> nat \<Rightarrow> bdll" where
  "CAT_BDLL_PUSH_BACK l obj =
     (let m1 = set_prev (items l) obj (tail l);
          m2 = set_next m1 obj None
      in case tail l of
           Some t \<Rightarrow> l\<lparr>items := set_next m2 t (Some obj), tail := Some obj\<rparr>
         | None \<Rightarrow> l\<lparr>items := m2, head := Some obj, tail := Some obj\<rparr>)"

text \<open>
  \<open>CAT_BDLL_INSERT_BEFORE(head, tail, obj, another, next, prev)\<close>:
  \<open>obj->prev = another->prev; obj->next = another; if (!another->prev) head = obj;
  another->prev = obj;\<close>
  The forward-only macro \<open>CAT_FDLL_INSERT_BEFORE(head, obj, another, next, prev)\<close> has
  the same four statements and no \<open>tail\<close> argument.
\<close>

definition CAT_BDLL_INSERT_BEFORE :: "bdll \<Rightarrow> nat \<Rightarrow> nat \<Rightarrow> bdll" where
  "CAT_BDLL_INSERT_BEFORE l obj another =
     (let m1 = set_prev (items l) obj (item_prev (items l another));
          m2 = set_next m1 obj (Some another);
          h = (if item_prev (m2 another) = None then Some obj else head l);
          m3 = set_prev m2 another (Some obj)
      in l\<lparr>items := m3, head := h\<rparr>)"

definition CAT_FDLL_INSERT_BEFORE :: "item_memory \<times> nat option \<Rightarrow> nat \<Rightarrow> nat \<Rightarrow> item_memory \<times> nat option" where
  "CAT_FDLL_INSERT_BEFORE l obj another =
     (let m1 = set_prev (fst l) obj (item_prev (fst l another));
          m2 = set_next m1 obj (Some another);
          h = (if item_prev (m2 another) = None then Some obj else snd l);
          m3 = set_prev m2 another (Some obj)
      in (m3, h))"

text \<open>
  \<open>CAT_BDLL_INSERT_AFTER(head, tail, obj, another, next, prev)\<close>:
  \<open>obj->next = another->next; obj->prev = another; if (!another->next) tail = obj;
  another->next = obj;\<close>
\<close>

definition CAT_BDLL_INSERT_AFTER :: "bdll \<Rightarrow> nat \<Rightarrow> nat \<Rightarrow> bdll" where
  "CAT_BDLL_INSERT_AFTER l obj another =
     (let m1 = set_next (items l) obj (item_next (items l another));
          m2 = set_prev m1 obj (Some another);
          t = (if item_next (m2 another) = None then Some obj else tail l);
          m3 = set_next m2 another (Some obj)
      in l\<lparr>items := m3, tail := t\<rparr>)"

text \<open>
  The traversals the header documents: \<open>for (item = head; item; item = item->next)\<close> and
  \<open>for (item = tail; item; item = item->prev)\<close>. They return the addresses visited, in
  order. A traversal of cyclic links never ends, so the first argument bounds the number
  of items visited.
\<close>

fun forward_from :: "nat \<Rightarrow> item_memory \<Rightarrow> nat option \<Rightarrow> nat list" where
  "forward_from 0 m p = []"
| "forward_from (Suc n) m None = []"
| "forward_from (Suc n) m (Some a) = a # forward_from n m (item_next (m a))"

fun backward_from :: "nat \<Rightarrow> item_memory \<Rightarrow> nat option \<Rightarrow> nat list" where
  "backward_from 0 m p = []"
| "backward_from (Suc n) m None = []"
| "backward_from (Suc n) m (Some a) = a # backward_from n m (item_prev (m a))"

definition forward :: "nat \<Rightarrow> bdll \<Rightarrow> nat list" where
  "forward n l = forward_from n (items l) (head l)"

definition backward :: "nat \<Rightarrow> bdll \<Rightarrow> nat list" where
  "backward n l = backward_from n (items l) (tail l)"

text \<open>An empty memory (every link null) and the list built by two \<open>PUSH_BACK\<close>s.\<close>

definition no_items :: item_memory where
  "no_items = (\<lambda>_. \<lparr>item_next = None, item_prev = None\<rparr>)"

definition two_item_list :: bdll where
  "two_item_list =
     CAT_BDLL_PUSH_BACK (CAT_BDLL_PUSH_BACK
       (CAT_BDLL_CLEAR \<lparr>items = no_items, head = None, tail = None\<rparr>) 1) 2"

text \<open>
  The list classes of the linked-list header in unnamed/part_001: \<open>DListForward\<close> holds \<open>_head\<close>, \<open>DList\<close>
  holds \<open>_head\<close> and \<open>_tail\<close>, \<open>SList\<close> holds \<open>_head\<close>. Each constructor calls
  \<open>Clear()\<close> on the object it is given, whatever its members hold, and each
  \<open>empty()\<close> is \<open>return _head != 0;\<close>.
\<close>

record DListForward =
  dlf_head :: "nat option"

record DList =
  dl_head :: "nat option"
  dl_tail :: "nat option"

record SList =
  sl_head :: "nat option"

definition DListForward_Clear :: "DListForward \<Rightarrow> DListForward" where
  "DListForward_Clear l = l\<lparr>dlf_head := None\<rparr>"

definition DListForward_new :: "DListForward \<Rightarrow> DListForward" where
  "DListForward_new uninitialised = DListForward_Clear uninitialised"

definition DListForward_empty :: "DListForward \<Rightarrow> bool" where
  "DListForward_empty l = (dlf_head l \<noteq> None)"

definition DList_Clear :: "DList \<Rightarrow> DList" where
  "DList_Clear l = l\<lparr>dl_head := None, dl_tail := None\<rparr>"

definition DList_new :: "DList \<Rightarrow> DList" where
  "DList_new uninitialised = DList_Clear uninitialised"

definition DList_empty :: "DList \<Rightarrow> bool" where
  "DList_empty l = (dl_head l \<noteq> None)"

definition SList_Clear :: "SList \<Rightarrow> SList" where
  "SList_Clear l = l\<lparr>sl_head := None\<rparr>"

definition SList_new :: "SList \<Rightarrow> SList" where
  "SList_new uninitialised = SList_Clear uninitialised"

definition SList_empty :: "SList \<Rightarrow> bool" where
  "SList_empty l = (sl_head l \<noteq> None)"

section \<open>Connection table probing (cat/net/SphynxTransport.hpp, cat/net/SphynxServer.hpp)\<close>

text \<open>The protocol constants of SphynxTransport.hpp.\<close>

definition HASH_TABLE_SIZE :: nat where
  "HASH_TABLE_SIZE = 32768"

definition COLLISION_MULTIPLIER :: nat where
  "COLLISION_MULTIPLIER = 71 * 5861 * 4 + 1"

definition COLLISION_INCREMENTER :: nat where
  "COLLISION_INCREMENTER = 1013904223"

text \<open>
  Modelled from the spec: the body of \<open>Map::next_collision_key\<close>, which SphynxServer.hpp
  only declares (\<open>u32 next_collision_key(u32 key)\<close>). The specification gives the probe
  sequence as \<open>next = (COLLISION_MULTIPLIER * key + COLLISION_INCREMENTER) mod TABLE_SIZE\<close>.
  The table size divides \<open>2 ^ 32\<close>, so computing the product and the sum in 32-bit
  unsigned arithmetic first gives the same slot.
\<close>

definition next_collision_key :: "nat \<Rightarrow> nat" where
  "next_collision_key key =
     (COLLISION_MULTIPLIER * key + COLLISION_INCREMENTER) mod HASH_TABLE_SIZE"

text \<open>The slots a probe walk visits in its first \<open>HASH_TABLE_SIZE\<close> steps, from slot \<open>k\<close>.\<close>

definition probe_walk :: "nat \<Rightarrow> nat list" where
  "probe_walk k = map (\<lambda>n. (next_collision_key ^^ n) k) [0..<HASH_TABLE_SIZE]"

text \<open>An affine map on slots; every iterate of the probe map is one.\<close>

definition affine_probe :: "nat \<Rightarrow> nat \<Rightarrow> nat \<Rightarrow> nat" where
  "affine_probe a c x = (a * x + c) mod HASH_TABLE_SIZE"

section \<open>The Sphynx client (_attic_/SphynxClient_DriftCalculations.cpp)\<close>

subsection \<open>Protocol constants\<close>

text \<open>
  From SphynxTransport.hpp: the protocol magic, the key sizes, the values of the
  \<open>HandshakeType\<close> enumeration and \<open>Transport::TIMEOUT_DISCONNECT\<close>.
\<close>

definition PROTOCOL_MAGIC :: u32 where
  "PROTOCOL_MAGIC = 0xC47D0001"

definition PUBLIC_KEY_BYTES :: nat where
  "PUBLIC_KEY_BYTES = 64"

definition CHALLENGE_BYTES :: nat where
  "CHALLENGE_BYTES = PUBLIC_KEY_BYTES"

definition ANSWER_BYTES :: nat where
  "ANSWER_BYTES = PUBLIC_KEY_BYTES * 2"

definition C2S_HELLO :: u8 where
  "C2S_HELLO = 0"

definition S2C_COOKIE :: u8 where
  "S2C_COOKIE = 1"

definition C2S_CHALLENGE :: u8 where
  "C2S_CHALLENGE = 2"

definition S2C_ANSWER :: u8 where
  "S2C_ANSWER = 3"

definition S2C_ERROR :: u8 where
  "S2C_ERROR = 4"

definition TIMEOUT_DISCONNECT :: u32 where
  "TIMEOUT_DISCONNECT = 15000"

text \<open>
  Modelled from the spec: the handshake packet lengths \<open>C2S_HELLO_LEN\<close>,
  \<open>S2C_COOKIE_LEN\<close>, \<open>C2S_CHALLENGE_LEN\<close>, \<open>S2C_ANSWER_LEN\<close> and \<open>S2C_ERROR_LEN\<close>,
  which the client uses and no header under the sources defines. The specification lists
  them as \<open>1 + 4 + PUBLIC_KEY_BYTES\<close>, \<open>1 + 4\<close>, \<open>1 + 4 + 4 + CHALLENGE_BYTES\<close>,
  \<open>1 + 2 + ANSWER_BYTES\<close> and \<open>1 + 1\<close>.
\<close>

definition C2S_HELLO_LEN :: nat where
  "C2S_HELLO_LEN = 1 + 4 + PUBLIC_KEY_BYTES"

definition S2C_COOKIE_LEN :: nat where
  "S2C_COOKIE_LEN = 1 + 4"

definition C2S_CHALLENGE_LEN :: nat where
  "C2S_CHALLENGE_LEN = 1 + 4 + 4 + CHALLENGE_BYTES"

definition S2C_ANSWER_LEN :: nat where
  "S2C_ANSWER_LEN = 1 + 2 + ANSWER_BYTES"

definition S2C_ERROR_LEN :: nat where
  "S2C_ERROR_LEN = 1 + 1"

text \<open>
  The constants the client uses whose declarations (SphynxClient.hpp and the version of
  SphynxTransport.hpp the client was written against) are not among the sources. They
  are parameters of the model. A \<open>HandshakeError\<close> is an enumerator, an \<open>int\<close>; the
  time and sample constants are compared with \<open>u32\<close> values and so take part in
  unsigned 32-bit arithmetic.
\<close>

type_synonym HandshakeError = int

record params =
  ERR_CLIENT_OUT_OF_MEMORY :: HandshakeError
  ERR_CLIENT_BROKEN_PIPE :: HandshakeError
  ERR_CLIENT_TIMEOUT :: HandshakeError
  ERR_CLIENT_ICMP :: HandshakeError
  ERR_NUM_CLIENT_ERRORS :: HandshakeError
  IOP_S2C_MTU_SET :: u8
  IOP_S2C_MTU_SET_LEN :: u32
  IOP_S2C_TIME_PONG :: u8
  IOP_S2C_TIME_PONG_LEN :: u32
  IOP_DISCO :: u8
  IOP_DISCO_LEN :: u32
  CONNECT_TIMEOUT :: u32
  INITIAL_HELLO_POST_INTERVAL :: u32
  MAX_TS_SAMPLES :: u32
  MIN_TS_SAMPLES :: u32
  MIN_DRIFT_SAMPLES :: u32
  TIME_SYNC_INTERVAL :: u32

subsection \<open>State\<close>

type_synonym Port = u16

record NetAddr =
  addr_ip :: nat
  addr_port :: Port

record TimesPingSample =
  smp_when :: u32
  smp_rtt :: u32
  smp_delta :: s32

text \<open>
  Every call the client makes into code that is not part of this file is recorded, in
  order: the upcalls to the derived class (\<open>OnConnect\<close>, \<open>OnConnectFail\<close>,
  \<open>OnDisconnect\<close>, \<open>OnTick\<close>, \<open>OnTimestampDeltaUpdate\<close>), the calls into the transport
  layer (\<open>OnDatagram\<close>, \<open>TransportDisconnected\<close>, \<open>PostDisconnect\<close>) and into the UDP
  endpoint (\<open>Post\<close> with the datagram and whether it was accepted, \<open>Close\<close>,
  \<open>IgnoreUnreachable\<close>).
\<close>

datatype call =
    OnConnect
  | OnConnectFail HandshakeError
  | OnDisconnect u8
  | OnTick u32
  | OnTimestampDeltaUpdate
  | OnDatagram "u8 list"
  | TransportDisconnected
  | PostDisconnect u8
  | Post NetAddr "u8 list" bool
  | Close
  | IgnoreUnreachable

text \<open>
  The members of \<open>Client\<close> that the modelled functions read or write, under their names
  without the leading underscore (\<open>connected_flag\<close> is \<open>_connected\<close>), and the record
  of calls \<open>trace\<close>. \<open>ts_B0\<close> is a \<open>double\<close> in the source: it is modelled by the exact
  rational it stands for, and rounding is not modelled. \<open>auth_enc\<close> is \<open>None\<close> until
  the key agreement has keyed it.
\<close>

record Client =
  connected_flag :: bool
  destroyed :: u32
  kill_flag :: bool
  server_addr :: NetAddr
  server_public_key :: "u8 list"
  cached_challenge :: "u8 list"
  session_key :: "u8 list"
  auth_enc :: "u8 list option"
  max_payload_bytes :: u32
  last_send_mstsc :: u32
  last_recv_tsc :: u32
  ts_base :: u32
  ts_next_index :: u32
  ts_B0 :: rat
  ts_B1 :: s32
  ts_sample_count :: u32
  ts_samples :: "TimesPingSample list"
  ts_delta_test1 :: u32
  ts_delta_test2 :: s32
  trace :: "call list"

text \<open>
  What the environment answers during one call: the clock (\<open>Clock::msec\<close>,
  \<open>Clock::msec_fast\<close>), whether \<open>AsyncBuffer::Acquire\<close> returns a buffer, whether
  \<open>Post\<close> accepts the datagram, and the cryptographic collaborators
  (\<open>AuthenticatedEncryption::Decrypt\<close> and \<open>Encrypt\<close>,
  \<open>KeyAgreementInitiator::ProcessAnswer\<close> and \<open>KeyEncryption\<close>), each giving its result
  on success and \<open>None\<close> on failure. A collaborator that fails is taken to leave the
  members of the client as they were.
\<close>

record env =
  env_now :: u32
  env_acquire_ok :: bool
  env_post_ok :: bool
  env_decrypt :: "u8 list \<Rightarrow> u8 list option"
  env_encrypt :: "u8 list \<Rightarrow> u8 list option"
  env_process_answer :: "u8 list \<Rightarrow> u8 list option"
  env_key_encryption :: "u8 list \<Rightarrow> u8 list \<Rightarrow> u8 list option"

definition called :: "Client \<Rightarrow> call list \<Rightarrow> Client" where
  "called c cs = c\<lparr>trace := trace c @ cs\<rparr>"

text \<open>
  \<open>Client::Client()\<close> stores \<open>_connected = false\<close>, \<open>_last_send_mstsc = 0\<close>,
  \<open>_destroyed = 0\<close> and the clock synchronization members, and leaves the other members
  as they are. The kill flag is constructed unset, and no call has been made yet.
\<close>

definition Client_new :: "Client \<Rightarrow> Client" where
  "Client_new uninitialised =
     uninitialised\<lparr>connected_flag := False, last_send_mstsc := 0, destroyed := 0,
       ts_base := 0, ts_next_index := 0, ts_B0 := 0, ts_B1 := 0, ts_sample_count := 0,
       kill_flag := False, trace := []\<rparr>"

subsection \<open>Teardown\<close>

text \<open>
  \<open>Atomic::Set(&_destroyed, 1)\<close> stores 1 and returns the value it replaced, in one
  step. \<open>Disconnect\<close> and \<open>ConnectFail\<close> act only when it returns 0.
\<close>

definition Atomic_Set_destroyed :: "Client \<Rightarrow> u32 \<Rightarrow> Client \<times> u32" where
  "Atomic_Set_destroyed c v = (c\<lparr>destroyed := v\<rparr>, destroyed c)"

definition Disconnect :: "Client \<Rightarrow> u8 \<Rightarrow> bool \<Rightarrow> Client" where
  "Disconnect c reason notify =
     (case Atomic_Set_destroyed c 1 of (c1, old) \<Rightarrow>
        if old = 0 then
          (let c2 = (if notify then called c1 [PostDisconnect reason] else c1);
               c3 = called c2 [TransportDisconnected, OnDisconnect reason]
           in called (c3\<lparr>kill_flag := True\<rparr>) [Close])
        else c1)"

definition ConnectFail :: "Client \<Rightarrow> HandshakeError \<Rightarrow> Client" where
  "ConnectFail c err =
     (case Atomic_Set_destroyed c 1 of (c1, old) \<Rightarrow>
        if old = 0 then
          (let c2 = called c1 [TransportDisconnected, OnConnectFail err]
           in called (c2\<lparr>kill_flag := True\<rparr>) [Close])
        else c1)"

definition OnUnreachable :: "params \<Rightarrow> Client \<Rightarrow> NetAddr \<Rightarrow> Client" where
  "OnUnreachable P c src =
     (if \<not> connected_flag c \<and> addr_ip (server_addr c) = addr_ip src
      then ConnectFail c (ERR_CLIENT_ICMP P) else c)"

subsection \<open>Handshake packets\<close>

definition getLE16 :: "u8 \<Rightarrow> u8 \<Rightarrow> u16" where
  "getLE16 b0 b1 = ucast b0 OR push_bit 8 (ucast b1)"

definition getLE32 :: "u8 \<Rightarrow> u8 \<Rightarrow> u8 \<Rightarrow> u8 \<Rightarrow> u32" where
  "getLE32 b0 b1 b2 b3 =
     ucast b0 OR push_bit 8 (ucast b1) OR push_bit 16 (ucast b2) OR push_bit 24 (ucast b3)"

definition putLE32 :: "u32 \<Rightarrow> u8 list" where
  "putLE32 x = [ucast x, ucast (drop_bit 8 x), ucast (drop_bit 16 x), ucast (drop_bit 24 x)]"

text \<open>The advertised session port of an answer: \<open>getLE(*(Port*)(data + 1))\<close>.\<close>

definition server_session_port :: "u8 list \<Rightarrow> Port" where
  "server_session_port data = getLE16 (data ! 1) (data ! 2)"

text \<open>The answer material handed to \<open>ProcessAnswer\<close>: \<open>ANSWER_BYTES\<close> from \<open>data + 1 + 2\<close>.\<close>

definition answer_bytes :: "u8 list \<Rightarrow> u8 list" where
  "answer_bytes data = take ANSWER_BYTES (drop (1 + 2) data)"

definition hello_packet :: "Client \<Rightarrow> u8 list" where
  "hello_packet c =
     [C2S_HELLO] @ putLE32 PROTOCOL_MAGIC @ take PUBLIC_KEY_BYTES (server_public_key c)"

definition challenge_packet :: "Client \<Rightarrow> u8 list \<Rightarrow> u8 list" where
  "challenge_packet c data =
     [C2S_CHALLENGE] @ putLE32 PROTOCOL_MAGIC @ take 4 (drop 1 data)
       @ take CHALLENGE_BYTES (cached_challenge c)"

text \<open>
  \<open>Client::PostHello\<close>: refuses once connected, fails without a buffer, and otherwise
  returns what \<open>Post\<close> returns.
\<close>

definition PostHello :: "Client \<Rightarrow> env \<Rightarrow> Client \<times> bool" where
  "PostHello c e =
     (if connected_flag c then (c, False)
      else if \<not> env_acquire_ok e then (c, False)
      else (called c [Post (server_addr c) (hello_packet c) (env_post_ok e)], env_post_ok e))"

text \<open>
  \<open>Client::OnRead\<close>. \<open>bytes\<close> is the length of \<open>data\<close>. The tests are made in the
  order of the source: the source address, the connected state, then cookie, answer and
  error packets.
\<close>

definition OnRead :: "params \<Rightarrow> Client \<Rightarrow> env \<Rightarrow> NetAddr \<Rightarrow> u8 list \<Rightarrow> Client" where
  "OnRead P c e src data =
     (if server_addr c \<noteq> src then c
      else if connected_flag c then
        (case env_decrypt e data of
           Some plain \<Rightarrow> called (c\<lparr>last_recv_tsc := env_now e\<rparr>) [OnDatagram plain]
         | None \<Rightarrow> c)
      else if length data = S2C_COOKIE_LEN \<and> data ! 0 = S2C_COOKIE then
        (if \<not> env_acquire_ok e then ConnectFail c (ERR_CLIENT_OUT_OF_MEMORY P)
         else
           (let c1 = called c [IgnoreUnreachable];
                c2 = called c1 [Post (server_addr c1) (challenge_packet c1 data) (env_post_ok e)]
            in if \<not> env_post_ok e then ConnectFail c2 (ERR_CLIENT_BROKEN_PIPE P) else c2))
      else if length data = S2C_ANSWER_LEN \<and> data ! 0 = S2C_ANSWER then
        (if server_session_port data > addr_port (server_addr c) then
           (case env_process_answer e (answer_bytes data) of
              None \<Rightarrow> c
            | Some key_hash \<Rightarrow>
                (case env_key_encryption e key_hash (session_key c) of
                   None \<Rightarrow> c
                 | Some enc \<Rightarrow>
                     called (c\<lparr>auth_enc := Some enc, connected_flag := True,
                       server_addr := (server_addr c)\<lparr>addr_port := server_session_port data\<rparr>\<rparr>)
                       [OnConnect]))
         else c)
      else if length data = S2C_ERROR_LEN \<and> data ! 0 = S2C_ERROR then
        (let err = uint (data ! 1)
         in if err \<le> ERR_NUM_CLIENT_ERRORS P then c else ConnectFail c err)
      else c)"

subsection \<open>The handshake loop of the timer thread\<close>

text \<open>
  The local variables of \<open>Client::ThreadFunction\<close> that its first loop carries from one
  tick to the next, and their values before the first tick.
\<close>

record hello_loop =
  first_hello_post :: u32
  last_hello_post :: u32
  hello_post_interval :: u32

definition hello_loop_start :: "params \<Rightarrow> u32 \<Rightarrow> hello_loop" where
  "hello_loop_start P start_time =
     \<lparr>first_hello_post = start_time, last_hello_post = start_time,
      hello_post_interval = INITIAL_HELLO_POST_INTERVAL P\<rparr>"

text \<open>
  One turn of \<open>while (!_connected)\<close>, from the return of \<open>_kill_flag.Wait\<close> to the end
  of the body: the thread returns, leaves the loop for the connected phase, or goes on
  with new local variables.
\<close>

datatype tick_result = Return bool | Break | Continue hello_loop

definition handshake_tick :: "params \<Rightarrow> Client \<Rightarrow> hello_loop \<Rightarrow> env \<Rightarrow> Client \<times> tick_result" where
  "handshake_tick P c L e =
     (if kill_flag c then (c, Return False)
      else if connected_flag c then (c, Break)
      else
        (let now = env_now e in
         if now - first_hello_post L \<ge> CONNECT_TIMEOUT P then
           (ConnectFail c (ERR_CLIENT_TIMEOUT P), Return False)
         else if now - last_hello_post L \<ge> hello_post_interval L then
           (case PostHello c e of (c1, posted) \<Rightarrow>
              if \<not> posted then (ConnectFail c1 (ERR_CLIENT_BROKEN_PIPE P), Return False)
              else (called c1 [OnTick now],
                    Continue (L\<lparr>last_hello_post := now,
                                hello_post_interval := hello_post_interval L * 2\<rparr>)))
         else (called c [OnTick now], Continue L)))"

text \<open>\<open>Client::PostPacket\<close>: encrypt, post, and note the time of a successful post.\<close>

definition PostPacket :: "Client \<Rightarrow> env \<Rightarrow> u8 list \<Rightarrow> Client \<times> bool" where
  "PostPacket c e buffer =
     (case env_encrypt e buffer of
        None \<Rightarrow> (c, False)
      | Some sealed \<Rightarrow>
          (let c1 = called c [Post (server_addr c) sealed (env_post_ok e)]
           in if env_post_ok e then (c1\<lparr>last_send_mstsc := env_now e\<rparr>, True)
              else (c1, False)))"

subsection \<open>Clock synchronization\<close>

text \<open>
  \<open>BestSamples\<close> is an array of pointers into \<open>_ts_samples\<close>: it is modelled by the
  list of the indices pointed to, and \<open>best_count\<close> by its length. Loop counters and
  indices are natural numbers; they stay below \<open>_ts_sample_count\<close>. The 64-bit signed
  sums are 64-bit words, read with \<open>sint\<close>, so that a sum that leaves the range wraps.
\<close>

definition sample_at :: "TimesPingSample list \<Rightarrow> nat \<Rightarrow> TimesPingSample" where
  "sample_at smp i = smp ! i"

text \<open>
  The head of \<open>UpdateTimeSynch\<close>: count the sample, store it at \<open>_ts_next_index\<close> and
  advance the index modulo \<open>MAX_TS_SAMPLES\<close>.
\<close>

definition ts_insert :: "params \<Rightarrow> Client \<Rightarrow> u32 \<Rightarrow> u32 \<Rightarrow> s32 \<Rightarrow> Client" where
  "ts_insert P c pong_time rtt delta =
     (let c1 = (if ts_sample_count c < MAX_TS_SAMPLES P
                then c\<lparr>ts_sample_count := ts_sample_count c + 1\<rparr> else c);
          c2 = c1\<lparr>ts_samples := (ts_samples c1)[unat (ts_next_index c1) :=
                  \<lparr>smp_when = pong_time, smp_rtt = rtt, smp_delta = delta\<rparr>]\<rparr>
      in c2\<lparr>ts_next_index := (ts_next_index c2 + 1) mod MAX_TS_SAMPLES P\<rparr>)"

text \<open>
  The first selection loop,
  \<open>for (ii = 1; ii < _ts_sample_count && best_count < num_samples; ++ii)\<close>: it appends
  sample \<open>ii\<close> and tracks the highest round-trip time seen. The result is
  \<open>(ii, highest_rtt, highest_index, BestSamples)\<close>.
\<close>

function fill_best ::
  "TimesPingSample list \<Rightarrow> nat \<Rightarrow> nat \<Rightarrow> nat \<Rightarrow> u32 \<Rightarrow> nat \<Rightarrow> nat list
     \<Rightarrow> nat \<times> u32 \<times> nat \<times> nat list" where
  "fill_best smp cnt num_samples ii highest_rtt highest_index best =
     (if ii < cnt \<and> length best < num_samples then
        (let rtt = smp_rtt (sample_at smp ii)
         in if rtt > highest_rtt
            then fill_best smp cnt num_samples (ii + 1) rtt ii (best @ [ii])
            else fill_best smp cnt num_samples (ii + 1) highest_rtt highest_index (best @ [ii]))
      else (ii, highest_rtt, highest_index, best))"
  by pat_completeness auto
termination
  by (relation "measure (\<lambda>(smp, cnt, num_samples, ii, highest_rtt, highest_index, best). cnt - ii)")
    auto

text \<open>
  The scan \<open>for (jj = 0; jj < best_count; ++jj)\<close> for the new highest round-trip time;
  the list argument holds the entries from \<open>jj\<close> on.
\<close>

fun find_highest ::
  "TimesPingSample list \<Rightarrow> nat list \<Rightarrow> nat \<Rightarrow> u32 \<Rightarrow> nat \<Rightarrow> u32 \<times> nat" where
  "find_highest smp [] jj highest_rtt highest_index = (highest_rtt, highest_index)"
| "find_highest smp (b # bs) jj highest_rtt highest_index =
     (let rtt = smp_rtt (sample_at smp b)
      in if rtt > highest_rtt then find_highest smp bs (jj + 1) rtt jj
         else find_highest smp bs (jj + 1) highest_rtt highest_index)"

text \<open>
  The second selection loop, \<open>for (; ii < _ts_sample_count; ++ii)\<close>: a sample with a
  lower round-trip time replaces the entry with the highest.
\<close>

function fight_best ::
  "TimesPingSample list \<Rightarrow> nat \<Rightarrow> nat \<Rightarrow> u32 \<Rightarrow> nat \<Rightarrow> nat list \<Rightarrow> nat list" where
  "fight_best smp cnt ii highest_rtt highest_index best =
     (if ii < cnt then
        (let sample_rtt = smp_rtt (sample_at smp ii)
         in if sample_rtt < highest_rtt then
              (let best1 = best[highest_index := ii]
               in case find_highest smp best1 0 sample_rtt highest_index of
                    (hr, hi) \<Rightarrow> fight_best smp cnt (ii + 1) hr hi best1)
            else fight_best smp cnt (ii + 1) highest_rtt highest_index best)
      else best)"
  by pat_completeness auto
termination
  by (relation "measure (\<lambda>(smp, cnt, ii, highest_rtt, highest_index, best). cnt - ii)") auto

text \<open>
  The selection as a whole, on the client after the sample is stored: \<open>num_samples\<close> is
  a quarter of the sample count and at least \<open>MIN_TS_SAMPLES\<close>, and \<open>BestSamples[0]\<close>
  starts as sample 0.
\<close>

definition num_samples_of :: "params \<Rightarrow> Client \<Rightarrow> u32" where
  "num_samples_of P c =
     (let num_samples = ts_sample_count c div 4
      in if num_samples < MIN_TS_SAMPLES P then MIN_TS_SAMPLES P else num_samples)"

definition BestSamples :: "params \<Rightarrow> Client \<Rightarrow> nat list" where
  "BestSamples P c =
     (let smp = ts_samples c; cnt = unat (ts_sample_count c)
      in case fill_best smp cnt (unat (num_samples_of P c)) 1 (smp_rtt (sample_at smp 0)) 0 [0] of
           (ii, highest_rtt, highest_index, best) \<Rightarrow>
             fight_best smp cnt ii highest_rtt highest_index best)"

text \<open>Division of \<open>s64\<close> values: the quotient is truncated towards zero.\<close>

definition s64_div :: "s64 \<Rightarrow> s64 \<Rightarrow> s64" where
  "s64_div a b = word_of_int (sgn (sint a) * sgn (sint b) * (\<bar>sint a\<bar> div \<bar>sint b\<bar>))"

text \<open>
  The averaging block: \<open>sum_delta\<close> adds the deltas of the chosen samples,
  \<open>avg_delta = (u32)(sum_delta / best_count)\<close>, and the test hook \<open>_ts_delta_test2\<close>
  takes the new delta when a chosen sample has it.
\<close>

definition sum_delta_avg :: "TimesPingSample list \<Rightarrow> nat list \<Rightarrow> s64" where
  "sum_delta_avg smp best = foldl (\<lambda>s i. s + scast (smp_delta (sample_at smp i))) 0 best"

definition avg_delta_of :: "TimesPingSample list \<Rightarrow> nat list \<Rightarrow> u32" where
  "avg_delta_of smp best = ucast (s64_div (sum_delta_avg smp best) (of_nat (length best)))"

definition average_block :: "Client \<Rightarrow> nat list \<Rightarrow> s32 \<Rightarrow> Client" where
  "average_block c best delta =
     (let smp = ts_samples c;
          c1 = (if \<exists>i \<in> set best. smp_delta (sample_at smp i) = delta
                then c\<lparr>ts_delta_test2 := delta\<rparr> else c);
          avg_delta = avg_delta_of smp best
      in c1\<lparr>ts_B0 := 0, ts_B1 := avg_delta, ts_delta_test1 := avg_delta\<rparr>)"

text \<open>
  The regression block. \<open>base_time\<close> lies \<open>MAX_TS_SAMPLES + 1\<close> sync intervals before
  the pong. \<open>sum_when\<close> starts with the first chosen sample's offset as a \<open>u32\<close> and adds
  the others as \<open>s32\<close>; \<open>sum_delta\<close> starts with the first delta.
\<close>

definition base_time_of :: "params \<Rightarrow> u32 \<Rightarrow> u32" where
  "base_time_of P pong_time =
     pong_time - MAX_TS_SAMPLES P * TIME_SYNC_INTERVAL P - TIME_SYNC_INTERVAL P"

definition sum_when_of :: "TimesPingSample list \<Rightarrow> nat list \<Rightarrow> u32 \<Rightarrow> s64" where
  "sum_when_of smp best base_time =
     foldl (\<lambda>s i. s + scast (smp_when (sample_at smp i) - base_time))
       (ucast (smp_when (sample_at smp (hd best)) - base_time)) (tl best)"

definition sum_delta_of :: "TimesPingSample list \<Rightarrow> nat list \<Rightarrow> s64" where
  "sum_delta_of smp best =
     foldl (\<lambda>s i. s + scast (smp_delta (sample_at smp i)))
       (scast (smp_delta (sample_at smp (hd best)))) (tl best)"

definition when_term :: "TimesPingSample list \<Rightarrow> nat list \<Rightarrow> u32 \<Rightarrow> nat \<Rightarrow> s64" where
  "when_term smp best base_time i =
     ucast (smp_when (sample_at smp i) - base_time) * of_nat (length best)
       - sum_when_of smp best base_time"

definition delta_term :: "TimesPingSample list \<Rightarrow> nat list \<Rightarrow> nat \<Rightarrow> s64" where
  "delta_term smp best i =
     scast (smp_delta (sample_at smp i)) * of_nat (length best) - sum_delta_of smp best"

definition B0_numerator :: "TimesPingSample list \<Rightarrow> nat list \<Rightarrow> u32 \<Rightarrow> s64" where
  "B0_numerator smp best base_time =
     foldl (\<lambda>s i. s + when_term smp best base_time i * delta_term smp best i) 0 best"

definition B0_denominator :: "TimesPingSample list \<Rightarrow> nat list \<Rightarrow> u32 \<Rightarrow> s64" where
  "B0_denominator smp best base_time =
     foldl (\<lambda>s i. s + when_term smp best base_time i * when_term smp best base_time i) 0 best"

text \<open>
  A \<open>double\<close> converted to \<open>s32\<close> loses its fraction (truncation towards zero). The value
  is reduced modulo \<open>2 ^ 32\<close> where the source leaves it undefined.
\<close>

definition double_to_s32 :: "rat \<Rightarrow> s32" where
  "double_to_s32 q = word_of_int (if q < 0 then \<lceil>q\<rceil> else \<lfloor>q\<rfloor>)"

text \<open>
  The last two assignments of the regression:
  \<open>_ts_B0 = B0_numerator / (double)B0_denominator\<close> and
  \<open>_ts_B1 = (s32)((sum_delta - _ts_B0 * sum_when) / (s64)best_count)\<close>. The \<open>double\<close>
  operations are carried out in exact rational arithmetic.
\<close>

definition drift_B0 :: "s64 \<Rightarrow> s64 \<Rightarrow> rat" where
  "drift_B0 numerator denominator = rat_of_int (sint numerator) / rat_of_int (sint denominator)"

definition drift_B1 :: "s64 \<Rightarrow> rat \<Rightarrow> s64 \<Rightarrow> nat \<Rightarrow> s32" where
  "drift_B1 sum_delta B0 sum_when best_count =
     double_to_s32 ((rat_of_int (sint sum_delta) - B0 * rat_of_int (sint sum_when))
       / rat_of_int (int best_count))"

text \<open>
  \<open>Client::UpdateTimeSynch\<close>. The averaging block is not guarded in the source (its
  condition is commented out), so it runs whenever there is more than one sample; the
  regression follows it when at least \<open>MIN_DRIFT_SAMPLES\<close> samples were chosen.
\<close>

definition UpdateTimeSynch :: "params \<Rightarrow> Client \<Rightarrow> u32 \<Rightarrow> u32 \<Rightarrow> s32 \<Rightarrow> Client" where
  "UpdateTimeSynch P c pong_time rtt delta =
     (let c1 = ts_insert P c pong_time rtt delta
      in if ts_sample_count c1 \<le> 1 then c1\<lparr>ts_B0 := 0, ts_B1 := delta\<rparr>
         else
           (let best = BestSamples P c1;
                smp = ts_samples c1;
                c2 = average_block c1 best delta
            in if of_nat (length best) < MIN_DRIFT_SAMPLES P then c2
               else
                 (let base_time = base_time_of P pong_time;
                      sum_when = sum_when_of smp best base_time;
                      sum_delta = sum_delta_of smp best;
                      numerator = B0_numerator smp best base_time;
                      denominator = B0_denominator smp best base_time
                  in if sint denominator \<le> 0 then c2\<lparr>ts_B0 := 0, ts_B1 := delta\<rparr>
                     else
                       (let B0 = drift_B0 numerator denominator
                        in c2\<lparr>ts_base := base_time, ts_B0 := B0,
                              ts_B1 := drift_B1 sum_delta B0 sum_when (length best)\<rparr>))))"

subsection \<open>Internal messages\<close>

text \<open>
  \<open>Client::OnInternal\<close>, a \<open>switch\<close> on the first byte of the message. The pong carries
  the client's own ping time and the server's receive time; the host is taken to be
  little-endian, so both are read as little-endian words. The diagnostic output of the
  pong branch (the log line and the \<open>timedata\<close> file, which go through \<open>ToServerTime\<close>)
  changes no member and makes no call that is recorded.
\<close>

definition OnInternal :: "params \<Rightarrow> Client \<Rightarrow> env \<Rightarrow> u8 list \<Rightarrow> u32 \<Rightarrow> Client" where
  "OnInternal P c e data bytes =
     (if data ! 0 = IOP_S2C_MTU_SET P then
        (if bytes = IOP_S2C_MTU_SET_LEN P then
           (let new_max_payload_bytes = getLE16 (data ! 1) (data ! 2)
            in if (ucast new_max_payload_bytes :: u32) > max_payload_bytes c
               then c\<lparr>max_payload_bytes := ucast new_max_payload_bytes\<rparr> else c)
         else c)
      else if data ! 0 = IOP_S2C_TIME_PONG P then
        (if bytes = IOP_S2C_TIME_PONG_LEN P then
           (let client_now = env_now e;
                client_ping_send_time = getLE32 (data ! 1) (data ! 2) (data ! 3) (data ! 4);
                server_ping_recv_time = getLE32 (data ! 5) (data ! 6) (data ! 7) (data ! 8);
                rtt = client_now - client_ping_send_time
            in if rtt < TIMEOUT_DISCONNECT then
                 (let delta = server_ping_recv_time - client_ping_send_time - rtt div 2
                  in called (UpdateTimeSynch P c client_now rtt delta) [OnTimestampDeltaUpdate])
               else c)
         else c)
      else if data ! 0 = IOP_DISCO P then
        (if bytes = IOP_DISCO_LEN P then Disconnect c (data ! 1) False else c)
      else c)"

subsection \<open>The operations as events\<close>

text \<open>
  The entry points of the client after construction, each with the arguments and the
  answers of the environment it is called with. A tick of the handshake loop comes with
  the local variables of the thread. \<open>run_events\<close> applies a sequence of them.
\<close>

datatype event =
    EvOnUnreachable NetAddr
  | EvOnRead env NetAddr "u8 list"
  | EvOnInternal env "u8 list" u32
  | EvPostHello env
  | EvPostPacket env "u8 list"
  | EvHandshakeTick env hello_loop
  | EvDisconnect u8 bool
  | EvConnectFail HandshakeError

fun step :: "params \<Rightarrow> Client \<Rightarrow> event \<Rightarrow> Client" where
  "step P c (EvOnUnreachable src) = OnUnreachable P c src"
| "step P c (EvOnRead e src data) = OnRead P c e src data"
| "step P c (EvOnInternal e data bytes) = OnInternal P c e data bytes"
| "step P c (EvPostHello e) = fst (PostHello c e)"
| "step P c (EvPostPacket e buffer) = fst (PostPacket c e buffer)"
| "step P c (EvHandshakeTick e L) = fst (handshake_tick P c L e)"
| "step P c (EvDisconnect reason notify) = Disconnect c reason notify"
| "step P c (EvConnectFail err) = ConnectFail c err"

definition run_events :: "params \<Rightarrow> Client \<Rightarrow> event list \<Rightarrow> Client" where
  "run_events P c evs = foldl (step P) c evs"

text \<open>The teardown upcalls among recorded calls.\<close>

fun is_teardown_upcall :: "call \<Rightarrow> bool" where
  "is_teardown_upcall (OnConnectFail err) = True"
| "is_teardown_upcall (OnDisconnect reason) = True"
| "is_teardown_upcall _ = False"

definition teardown_upcalls :: "Client \<Rightarrow> call list" where
  "teardown_upcalls c = filter is_teardown_upcall (trace c)"

subsection \<open>Concrete values\<close>

text \<open>
  Values for the constants that are parameters, used where a statement is evaluated on
  a concrete input: four client-side errors numbered from 0 and followed by
  \<open>ERR_NUM_CLIENT_ERRORS\<close>, a ring of 64 samples of which at least 3 are chosen, drift
  estimation from 4 chosen samples on (the number the source's comment gives), and a
  sync interval of 20 seconds.
\<close>

definition example_params :: params where
  "example_params =
     \<lparr>ERR_CLIENT_OUT_OF_MEMORY = 0, ERR_CLIENT_BROKEN_PIPE = 1, ERR_CLIENT_TIMEOUT = 2,
      ERR_CLIENT_ICMP = 3, ERR_NUM_CLIENT_ERRORS = 4,
      IOP_S2C_MTU_SET = 0, IOP_S2C_MTU_SET_LEN = 3,
      IOP_S2C_TIME_PONG = 1, IOP_S2C_TIME_PONG_LEN = 9,
      IOP_DISCO = 2, IOP_DISCO_LEN = 2,
      CONNECT_TIMEOUT = 6000, INITIAL_HELLO_POST_INTERVAL = 200,
      MAX_TS_SAMPLES = 64, MIN_TS_SAMPLES = 3, MIN_DRIFT_SAMPLES = 4,
      TIME_SYNC_INTERVAL = 20000\<rparr>"

text \<open>A client just constructed, set to reach a server on port 5000.\<close>

definition example_client :: Client where
  "example_client =
     Client_new
       \<lparr>connected_flag = True, destroyed = 7, kill_flag = True,
        server_addr = \<lparr>addr_ip = 1, addr_port = 5000\<rparr>,
        server_public_key = replicate 64 0, cached_challenge = replicate 64 0,
        session_key = [], auth_enc = None, max_payload_bytes = 1400,
        last_send_mstsc = 0, last_recv_tsc = 0, ts_base = 0, ts_next_index = 0,
        ts_B0 = 0, ts_B1 = 0, ts_sample_count = 0,
        ts_samples = replicate 64 \<lparr>smp_when = 0, smp_rtt = 0, smp_delta = 0\<rparr>,
        ts_delta_test1 = 0, ts_delta_test2 = 0, trace = []\<rparr>"

text \<open>
  An environment at time 1000 in which buffers are available and the collaborators
  succeed, and one in which \<open>Post\<close> refuses the datagram.
\<close>

definition example_env :: env where
  "example_env =
     \<lparr>env_now = 1000, env_acquire_ok = True, env_post_ok = True,
      env_decrypt = (\<lambda>d. Some d), env_encrypt = (\<lambda>d. Some d),
      env_process_answer = (\<lambda>a. Some (take 4 a)),
      env_key_encryption = (\<lambda>k s. Some (k @ s))\<rparr>"

definition failing_post_env :: env where
  "failing_post_env = example_env\<lparr>env_post_ok := False\<rparr>"

text \<open>
  An answer packet advertising session port 5001, an error packet with code 0 and one
  with code \<open>0xa6\<close>.
\<close>

definition example_answer :: "u8 list" where
  "example_answer = [S2C_ANSWER, 0x89, 0x13] @ replicate 128 7"

definition example_error :: "u8 list" where
  "example_error = [S2C_ERROR, 0]"

definition server_full_error :: "u8 list" where
  "server_full_error = [S2C_ERROR, 0xa6]"

text \<open>Two \<open>IOP_S2C_MTU_SET\<close> messages, carrying 1450 and 1200.\<close>

definition mtu_set_1450 :: "u8 list" where
  "mtu_set_1450 = [IOP_S2C_MTU_SET example_params, 0xaa, 0x05]"

definition mtu_set_1200 :: "u8 list" where
  "mtu_set_1200 = [IOP_S2C_MTU_SET example_params, 0xb0, 0x04]"

text \<open>
  Two clients with 15 samples stored. In the first, the pongs of four pings sent within
  12 seconds arrived in the same millisecond: samples 0 to 3 have the same receive time,
  the lowest round-trip times and the deltas 7, 9, 11 and 13. In the second, the samples
  were received 5 seconds apart and all have delta 7.
\<close>

definition burst_client :: Client where
  "burst_client = example_client\<lparr>ts_sample_count := 15, ts_next_index := 15,
     ts_samples :=
       [\<lparr>smp_when = 50000, smp_rtt = 14000, smp_delta = 7\<rparr>,
        \<lparr>smp_when = 50000, smp_rtt = 9000, smp_delta = 9\<rparr>,
        \<lparr>smp_when = 50000, smp_rtt = 4000, smp_delta = 11\<rparr>,
        \<lparr>smp_when = 50000, smp_rtt = 2000, smp_delta = 13\<rparr>]
       @ map (\<lambda>k. \<lparr>smp_when = 50000 + 5000 * of_nat k, smp_rtt = 14500, smp_delta = 20\<rparr>)
           [1..<12]
       @ replicate 49 \<lparr>smp_when = 0, smp_rtt = 0, smp_delta = 0\<rparr>\<rparr>"

definition steady_client :: Client where
  "steady_client = example_client\<lparr>ts_sample_count := 15, ts_next_index := 15,
     ts_samples := map (\<lambda>k. \<lparr>smp_when = 1000 + 5000 * of_nat k,
       smp_rtt = 20 + of_nat (k mod 5), smp_delta = 7\<rparr>) [0..<64]\<rparr>"

text \<open>
  The mean of the deltas of the chosen samples, as the claim about the regression's
  fallback words it, in exact arithmetic.
\<close>

definition mean_delta :: "TimesPingSample list \<Rightarrow> nat list \<Rightarrow> rat" where
  "mean_delta smp best =
     rat_of_int (sum_list (map (\<lambda>i. sint (smp_delta (sample_at smp i))) best))
       / rat_of_nat (length best)"

subsection \<open>The teardown invariant\<close>

text \<open>
  What every sequence of operations keeps true of a client: either \<open>_destroyed\<close> is 0
  and no teardown upcall has been made, or \<open>_destroyed\<close> is 1, the kill flag is set
  and exactly one teardown upcall has been made.
\<close>

definition teardown_inv :: "Client \<Rightarrow> bool" where
  "teardown_inv c =
     ((destroyed c = 0 \<and> teardown_upcalls c = []) \<or>
      (destroyed c = 1 \<and> kill_flag c \<and> length (teardown_upcalls c) = 1))"

section \<open>Linked lists: what the insert macros and \<open>empty()\<close> do\<close>

lemma two_item_list_links:
  "forward 5 two_item_list = [1, 2]" "backward 5 two_item_list = [2, 1]"
  by (simp_all add: two_item_list_def CAT_BDLL_PUSH_BACK_def CAT_BDLL_CLEAR_def
      set_next_def set_prev_def no_items_def forward_def backward_def eval_nat_numeral)

text \<open>
  C9. The claim: for a well-formed list and an item \<open>another\<close> in it, the insert macros
  keep the list well-formed and place \<open>obj\<close> next to \<open>another\<close> in both traversals,
  also when \<open>another\<close> is in the middle. The macros store the links of \<open>obj\<close> and one
  link of \<open>another\<close>, and never the link of the neighbour on the other side of
  \<open>obj\<close>. On the list 1, 2 built by two \<open>PUSH_BACK\<close>s: inserting 3 after 1 gives the
  forward traversal 1, 3, 2 and the backward traversal 2, 1; inserting 3 before 2 gives
  the backward traversal 2, 3, 1 and the forward traversal 1, 2, for the bi-directional
  and the forward-only macro alike. The item 3 is lost to one of the two traversals.
\<close>

theorem insert_between_two_items:
  "forward 5 (CAT_BDLL_INSERT_AFTER two_item_list 3 1) = [1, 3, 2] \<and>
   backward 5 (CAT_BDLL_INSERT_AFTER two_item_list 3 1) = [2, 1] \<and>
   forward 5 (CAT_BDLL_INSERT_BEFORE two_item_list 3 2) = [1, 2] \<and>
   backward 5 (CAT_BDLL_INSERT_BEFORE two_item_list 3 2) = [2, 3, 1] \<and>
   forward_from 5 (fst (CAT_FDLL_INSERT_BEFORE (items two_item_list, head two_item_list) 3 2))
     (snd (CAT_FDLL_INSERT_BEFORE (items two_item_list, head two_item_list) 3 2)) = [1, 2]"
  by (simp add: two_item_list_def CAT_BDLL_PUSH_BACK_def CAT_BDLL_CLEAR_def
      CAT_BDLL_INSERT_AFTER_def CAT_BDLL_INSERT_BEFORE_def CAT_FDLL_INSERT_BEFORE_def
      set_next_def set_prev_def no_items_def forward_def backward_def eval_nat_numeral)

text \<open>
  C10. The claim: \<open>empty()\<close> of \<open>DListForward\<close>, \<open>DList\<close> and \<open>SList\<close> returns true
  if and only if the list has no items, that is, its head pointer is null. Each of the
  three accessors returns \<open>_head != 0\<close>: on a list that has just been constructed, and
  so holds no item, each returns false.
\<close>

theorem empty_of_new_list:
  "DListForward_empty (DListForward_new a) = False \<and>
   DList_empty (DList_new b) = False \<and>
   SList_empty (SList_new c) = False"
  by (simp add: DListForward_empty_def DListForward_new_def DListForward_Clear_def
      DList_empty_def DList_new_def DList_Clear_def
      SList_empty_def SList_new_def SList_Clear_def)

section \<open>The probe sequence has full period\<close>

text \<open>
  The \<open>2 ^ k\<close>-th iterate of the probe map is computed by repeated squaring of affine
  maps. The \<open>32768\<close>-th iterate is the identity and the \<open>16384\<close>-th iterate moves
  every slot, so no slot comes back to itself in fewer than \<open>32768\<close> steps.
\<close>

lemma affine_probe_reduce:
  "(a * x + c) mod HASH_TABLE_SIZE = affine_probe (a mod HASH_TABLE_SIZE) (c mod HASH_TABLE_SIZE) x"
  unfolding affine_probe_def by (rule mod_add_cong [OF mod_mult_cong]) simp_all

lemma next_collision_key_affine: "next_collision_key = affine_probe 26125 29535"
proof
  fix x
  show "next_collision_key x = affine_probe 26125 29535 x"
    unfolding next_collision_key_def affine_probe_reduce
    by (simp add: COLLISION_MULTIPLIER_def COLLISION_INCREMENTER_def HASH_TABLE_SIZE_def)
qed


lemma affine_probe_comp:
  "affine_probe a c (affine_probe a' c' x) =
     affine_probe ((a * a') mod HASH_TABLE_SIZE) ((a * c' + c) mod HASH_TABLE_SIZE) x"
proof -
  have "(a * ((a' * x + c') mod HASH_TABLE_SIZE) + c) mod HASH_TABLE_SIZE
      = (a * (a' * x + c') + c) mod HASH_TABLE_SIZE"
    by (rule mod_add_cong [OF mod_mult_cong]) simp_all
  also have "a * (a' * x + c') + c = (a * a') * x + (a * c' + c)"
    by (simp add: algebra_simps)
  finally show ?thesis
    using affine_probe_reduce [of "a * a'" x "a * c' + c"]
    by (simp only: affine_probe_def)
qed

lemma funpow_affine_double:
  assumes "f ^^ n = affine_probe a c"
  shows "f ^^ (n + n) =
     affine_probe ((a * a) mod HASH_TABLE_SIZE) ((a * c + c) mod HASH_TABLE_SIZE)"
proof
  fix x
  have "(f ^^ (n + n)) x = (f ^^ n) ((f ^^ n) x)"
    by (simp only: funpow_add o_apply)
  also have "\<dots> = affine_probe a c (affine_probe a c x)"
    by (simp only: assms)
  finally show "(f ^^ (n + n)) x =
      affine_probe ((a * a) mod HASH_TABLE_SIZE) ((a * c + c) mod HASH_TABLE_SIZE) x"
    by (simp only: affine_probe_comp)
qed

lemma probe_pow_1: "next_collision_key ^^ 1 = affine_probe 26125 29535"
  by (simp add: next_collision_key_affine)

lemma probe_pow_2: "next_collision_key ^^ 2 = affine_probe 23721 10546"
  using funpow_affine_double [OF probe_pow_1] unfolding one_add_one HASH_TABLE_SIZE_def
  by simp

lemma probe_pow_4: "next_collision_key ^^ 4 = affine_probe 26513 21300"
  using funpow_affine_double [OF probe_pow_2] by (simp add: HASH_TABLE_SIZE_def)

lemma probe_pow_8: "next_collision_key ^^ 8 = affine_probe 33 24488"
  using funpow_affine_double [OF probe_pow_4] by (simp add: HASH_TABLE_SIZE_def)

lemma probe_pow_16: "next_collision_key ^^ 16 = affine_probe 1089 13392"
  using funpow_affine_double [OF probe_pow_8] by (simp add: HASH_TABLE_SIZE_def)

lemma probe_pow_32: "next_collision_key ^^ 32 = affine_probe 6273 15520"
  using funpow_affine_double [OF probe_pow_16] by (simp add: HASH_TABLE_SIZE_def)

lemma probe_pow_64: "next_collision_key ^^ 64 = affine_probe 28929 18752"
  using funpow_affine_double [OF probe_pow_32] by (simp add: HASH_TABLE_SIZE_def)

lemma probe_pow_128: "next_collision_key ^^ 128 = affine_probe 25089 21120"
  using funpow_affine_double [OF probe_pow_64] by (simp add: HASH_TABLE_SIZE_def)

lemma probe_pow_256: "next_collision_key ^^ 256 = affine_probe 17409 9472"
  using funpow_affine_double [OF probe_pow_128] by (simp add: HASH_TABLE_SIZE_def)

lemma probe_pow_512: "next_collision_key ^^ 512 = affine_probe 2049 18944"
  using funpow_affine_double [OF probe_pow_256] by (simp add: HASH_TABLE_SIZE_def)

lemma probe_pow_1024: "next_collision_key ^^ 1024 = affine_probe 4097 5120"
  using funpow_affine_double [OF probe_pow_512] by (simp add: HASH_TABLE_SIZE_def)

lemma probe_pow_2048: "next_collision_key ^^ 2048 = affine_probe 8193 10240"
  using funpow_affine_double [OF probe_pow_1024] by (simp add: HASH_TABLE_SIZE_def)

lemma probe_pow_4096: "next_collision_key ^^ 4096 = affine_probe 16385 20480"
  using funpow_affine_double [OF probe_pow_2048] by (simp add: HASH_TABLE_SIZE_def)

lemma probe_pow_8192: "next_collision_key ^^ 8192 = affine_probe 1 8192"
  using funpow_affine_double [OF probe_pow_4096] by (simp add: HASH_TABLE_SIZE_def)

lemma probe_pow_16384: "next_collision_key ^^ 16384 = affine_probe 1 16384"
  using funpow_affine_double [OF probe_pow_8192] by (simp add: HASH_TABLE_SIZE_def)

lemma probe_pow_32768: "next_collision_key ^^ 32768 = affine_probe 1 0"
  using funpow_affine_double [OF probe_pow_16384] by (simp add: HASH_TABLE_SIZE_def)


lemma next_collision_key_bound: "next_collision_key x < HASH_TABLE_SIZE"
  by (simp add: next_collision_key_def HASH_TABLE_SIZE_def)

lemma probe_iter_bound: "x < HASH_TABLE_SIZE \<Longrightarrow> (next_collision_key ^^ n) x < HASH_TABLE_SIZE"
  by (cases n) (simp_all add: next_collision_key_bound)

lemma probe_full_turn: "x < HASH_TABLE_SIZE \<Longrightarrow> (next_collision_key ^^ 32768) x = x"
  by (simp add: probe_pow_32768 affine_probe_def)

lemma probe_half_turn: "x < HASH_TABLE_SIZE \<Longrightarrow> (next_collision_key ^^ 16384) x \<noteq> x"
proof -
  assume "x < HASH_TABLE_SIZE"
  then have "x < 32768" by (simp add: HASH_TABLE_SIZE_def)
  then have "(x + 16384) mod 32768 \<noteq> x"
  proof (cases "x < 16384")
    case True
    then have "(x + 16384) mod 32768 = x + 16384" by simp
    then show ?thesis by simp
  next
    case False
    with \<open>x < 32768\<close> have "(x + 16384) mod 32768 = x + 16384 - 32768"
      by (simp add: mod_if)
    with False show ?thesis by simp
  qed
  then show ?thesis by (simp add: probe_pow_16384 affine_probe_def HASH_TABLE_SIZE_def)
qed

lemma funpow_fixed_mult: "(f ^^ d) x = x \<Longrightarrow> (f ^^ (d * q)) x = x"
proof (induction q)
  case 0
  then show ?case by simp
next
  case (Suc q)
  have "(f ^^ (d * Suc q)) x = (f ^^ d) ((f ^^ (d * q)) x)"
    by (simp add: funpow_add)
  with Suc show ?case by simp
qed

lemma gcd_pow2_half:
  fixes d :: nat
  assumes "0 < d" "d < 32768"
  shows "gcd d 32768 dvd 16384"
proof -
  let ?g = "gcd d 32768"
  obtain c where c: "32768 = ?g * c"
    using gcd_dvd2 [of d 32768] by (auto simp: dvd_def)
  have "even c"
  proof (rule ccontr)
    assume "odd c"
    then have "coprime c (2 ^ 15)"
      by (simp only: coprime_power_right_iff coprime_right_2_iff_odd) simp
    then have "coprime c 32768" by simp
    moreover have "c dvd 32768" using dvd_triv_right [of c ?g] by (simp only: c [symmetric])
    ultimately have "c = 1" using coprime_common_divisor_nat [of c 32768 c] by simp
    with c have "?g = 32768" by simp
    moreover have "?g \<le> d" using assms(1) by (simp add: gcd_le1_nat)
    ultimately show False using assms(2) by simp
  qed
  then obtain c' where "c = 2 * c'" by (auto elim: evenE)
  with c have "16384 = ?g * c'" by (simp add: mult.commute)
  then show ?thesis by (simp only: dvd_triv_left)
qed

lemma probe_no_short_cycle:
  assumes x: "x < HASH_TABLE_SIZE" and d: "0 < d" "d < HASH_TABLE_SIZE"
  shows "(next_collision_key ^^ d) x \<noteq> x"
proof
  let ?f = next_collision_key
  let ?g = "gcd d 32768"
  assume fixed: "(?f ^^ d) x = x"
  from d(1) obtain q y where b: "d * q = 32768 * y + ?g"
    using bezout_nat [of d 32768] by auto
  have "(?f ^^ (32768 * y)) x = x"
    by (rule funpow_fixed_mult) (rule probe_full_turn [OF x])
  then have "(?f ^^ (32768 * y + ?g)) x = (?f ^^ ?g) x"
    by (simp add: funpow_add add.commute [of "32768 * y"])
  moreover have "(?f ^^ (d * q)) x = x" by (rule funpow_fixed_mult [OF fixed])
  ultimately have g: "(?f ^^ ?g) x = x" by (simp add: b)
  from gcd_pow2_half [of d] d obtain c where "16384 = ?g * c"
    by (auto simp: dvd_def HASH_TABLE_SIZE_def)
  with funpow_fixed_mult [OF g, of c] have "(?f ^^ 16384) x = x" by simp
  with probe_half_turn [OF x] show False by simp
qed

lemma probe_iter_inj:
  assumes x: "x < HASH_TABLE_SIZE" and ij: "i < j" "j < HASH_TABLE_SIZE"
  shows "(next_collision_key ^^ i) x \<noteq> (next_collision_key ^^ j) x"
proof
  let ?f = next_collision_key
  let ?y = "(?f ^^ (j - i)) x"
  assume eq: "(?f ^^ i) x = (?f ^^ j) x"
  have y: "?y < HASH_TABLE_SIZE" by (rule probe_iter_bound [OF x])
  have i: "i < 32768" using ij by (simp add: HASH_TABLE_SIZE_def)
  have "(?f ^^ i) ?y = (?f ^^ j) x"
    using ij(1) by (simp add: funpow_add [symmetric, unfolded o_def, THEN fun_cong])
  then have "(?f ^^ (32768 - i)) ((?f ^^ i) ?y) = (?f ^^ (32768 - i)) ((?f ^^ i) x)"
    by (simp add: eq)
  moreover have "\<And>z. (?f ^^ (32768 - i)) ((?f ^^ i) z) = (?f ^^ 32768) z"
    using i by (simp add: funpow_add [symmetric, unfolded o_def, THEN fun_cong])
  ultimately have "?y = x"
    by (simp add: probe_full_turn [OF x] probe_full_turn [OF y])
  moreover have "?y \<noteq> x"
    by (rule probe_no_short_cycle [OF x]) (use ij in simp_all)
  ultimately show False by simp
qed

text \<open>
  C3. With \<open>HASH_TABLE_SIZE = 32768\<close>, \<open>COLLISION_MULTIPLIER = 71 * 5861 * 4 + 1\<close> and
  \<open>COLLISION_INCREMENTER = 1013904223\<close>, the probe map is a full-period permutation of
  the slots: from any slot \<open>k\<close>, the first \<open>HASH_TABLE_SIZE\<close> iterates are pairwise
  different, they are exactly the slots \<open>0 .. HASH_TABLE_SIZE - 1\<close>, the next iterate is
  \<open>k\<close> again, and so a walk from \<open>k\<close> reaches any slot \<open>t\<close> in fewer than
  \<open>HASH_TABLE_SIZE\<close> steps.
\<close>

theorem probe_full_period:
  assumes k: "k < HASH_TABLE_SIZE"
  shows "distinct (probe_walk k) \<and>
         set (probe_walk k) = {0..<HASH_TABLE_SIZE} \<and>
         (next_collision_key ^^ HASH_TABLE_SIZE) k = k \<and>
         (\<forall>t<HASH_TABLE_SIZE. \<exists>n<HASH_TABLE_SIZE. (next_collision_key ^^ n) k = t)"
proof -
  let ?g = "\<lambda>n. (next_collision_key ^^ n) k"
  have inj: "inj_on ?g {0..<HASH_TABLE_SIZE}"
  proof (rule inj_onI)
    fix i j
    assume "i \<in> {0..<HASH_TABLE_SIZE}" "j \<in> {0..<HASH_TABLE_SIZE}" "?g i = ?g j"
    then show "i = j"
      using probe_iter_inj [OF k, of i j] probe_iter_inj [OF k, of j i]
      by (cases i j rule: linorder_cases) auto
  qed
  have d: "distinct (probe_walk k)"
    by (simp add: probe_walk_def distinct_map inj)
  have sub: "?g ` {0..<HASH_TABLE_SIZE} \<subseteq> {0..<HASH_TABLE_SIZE}"
    using probe_iter_bound [OF k] by auto
  have "card (?g ` {0..<HASH_TABLE_SIZE}) = card {0..<HASH_TABLE_SIZE}"
    by (rule card_image [OF inj])
  with sub have img: "?g ` {0..<HASH_TABLE_SIZE} = {0..<HASH_TABLE_SIZE}"
    by (intro card_subset_eq) simp_all
  then have s: "set (probe_walk k) = {0..<HASH_TABLE_SIZE}"
    by (simp add: probe_walk_def)
  have p: "(next_collision_key ^^ HASH_TABLE_SIZE) k = k"
    using probe_full_turn [OF k] by (simp add: HASH_TABLE_SIZE_def)
  have r: "\<forall>t<HASH_TABLE_SIZE. \<exists>n<HASH_TABLE_SIZE. ?g n = t"
  proof (intro allI impI)
    fix t assume "t < HASH_TABLE_SIZE"
    then have "t \<in> ?g ` {0..<HASH_TABLE_SIZE}" by (simp only: img) simp
    then show "\<exists>n<HASH_TABLE_SIZE. ?g n = t" by auto
  qed
  from d s p r show ?thesis by blast
qed

theorem probe_full_period_witness:
  "(0::nat) < HASH_TABLE_SIZE \<and> distinct (probe_walk 0) \<and>
   set (probe_walk 0) = {0..<HASH_TABLE_SIZE} \<and>
   (next_collision_key ^^ HASH_TABLE_SIZE) 0 = 0 \<and>
   (\<exists>n<HASH_TABLE_SIZE. (next_collision_key ^^ n) 0 = 12345)"
proof -
  have h: "(0::nat) < HASH_TABLE_SIZE" by (simp add: HASH_TABLE_SIZE_def)
  have t: "(12345::nat) < HASH_TABLE_SIZE" by (simp add: HASH_TABLE_SIZE_def)
  from probe_full_period [OF h] h t show ?thesis by blast
qed

section \<open>Teardown happens once\<close>

lemma Disconnect_idle: "destroyed c = 1 \<Longrightarrow> Disconnect c reason notify = c"
  by (simp add: Disconnect_def Atomic_Set_destroyed_def)

lemma ConnectFail_idle: "destroyed c = 1 \<Longrightarrow> ConnectFail c err = c"
  by (simp add: ConnectFail_def Atomic_Set_destroyed_def)

lemma ConnectFail_first:
  "destroyed c = 0 \<Longrightarrow>
   ConnectFail c err = c\<lparr>destroyed := 1, kill_flag := True,
     trace := trace c @ [TransportDisconnected, OnConnectFail err, Close]\<rparr>"
  by (simp add: ConnectFail_def Atomic_Set_destroyed_def called_def)

lemma Disconnect_first:
  "destroyed c = 0 \<Longrightarrow>
   Disconnect c reason notify = c\<lparr>destroyed := 1, kill_flag := True,
     trace := trace c @ (if notify then [PostDisconnect reason] else [])
       @ [TransportDisconnected, OnDisconnect reason, Close]\<rparr>"
  by (simp add: Disconnect_def Atomic_Set_destroyed_def called_def)

lemma teardown_inv_ConnectFail: "teardown_inv c \<Longrightarrow> teardown_inv (ConnectFail c err)"
  unfolding teardown_inv_def
  by (auto simp: ConnectFail_idle ConnectFail_first teardown_upcalls_def)

lemma teardown_inv_Disconnect: "teardown_inv c \<Longrightarrow> teardown_inv (Disconnect c reason notify)"
  unfolding teardown_inv_def
  by (auto simp: Disconnect_idle Disconnect_first teardown_upcalls_def)

lemma teardown_inv_called [simp]:
  "filter is_teardown_upcall cs = [] \<Longrightarrow> teardown_inv (called c cs) = teardown_inv c"
  by (simp add: teardown_inv_def teardown_upcalls_def called_def)

lemma teardown_inv_updates [simp]:
  "teardown_inv (c\<lparr>last_recv_tsc := t\<rparr>) = teardown_inv c"
  "teardown_inv (c\<lparr>last_send_mstsc := t\<rparr>) = teardown_inv c"
  "teardown_inv (c\<lparr>max_payload_bytes := m\<rparr>) = teardown_inv c"
  "teardown_inv (c\<lparr>auth_enc := a, connected_flag := b, server_addr := s\<rparr>) = teardown_inv c"
  by (simp_all add: teardown_inv_def teardown_upcalls_def)

lemma UpdateTimeSynch_frame:
  "destroyed (UpdateTimeSynch P c t r d) = destroyed c"
  "kill_flag (UpdateTimeSynch P c t r d) = kill_flag c"
  "trace (UpdateTimeSynch P c t r d) = trace c"
  "max_payload_bytes (UpdateTimeSynch P c t r d) = max_payload_bytes c"
  by (simp_all add: UpdateTimeSynch_def ts_insert_def average_block_def Let_def)

lemma teardown_inv_UpdateTimeSynch [simp]:
  "teardown_inv (UpdateTimeSynch P c t r d) = teardown_inv c"
  by (simp add: teardown_inv_def teardown_upcalls_def UpdateTimeSynch_frame)

lemma teardown_inv_OnUnreachable: "teardown_inv c \<Longrightarrow> teardown_inv (OnUnreachable P c src)"
  by (simp add: OnUnreachable_def teardown_inv_ConnectFail)

lemma teardown_inv_OnRead: "teardown_inv c \<Longrightarrow> teardown_inv (OnRead P c e src data)"
  unfolding OnRead_def Let_def
  by (simp add: teardown_inv_ConnectFail split: option.splits)

lemma teardown_inv_OnInternal: "teardown_inv c \<Longrightarrow> teardown_inv (OnInternal P c e data bytes)"
  unfolding OnInternal_def Let_def
  by (simp add: teardown_inv_Disconnect)

lemma teardown_inv_PostHello: "teardown_inv c \<Longrightarrow> teardown_inv (fst (PostHello c e))"
  by (simp add: PostHello_def)

lemma teardown_inv_PostPacket: "teardown_inv c \<Longrightarrow> teardown_inv (fst (PostPacket c e b))"
  unfolding PostPacket_def Let_def
  by (simp split: option.splits)

lemma teardown_inv_handshake_tick:
  "teardown_inv c \<Longrightarrow> teardown_inv (fst (handshake_tick P c L e))"
  unfolding handshake_tick_def Let_def
  using teardown_inv_PostHello [of c e]
  by (auto simp: teardown_inv_ConnectFail split: prod.splits)

lemma teardown_inv_step: "teardown_inv c \<Longrightarrow> teardown_inv (step P c ev)"
  by (cases ev)
    (simp_all add: teardown_inv_OnUnreachable teardown_inv_OnRead teardown_inv_OnInternal
      teardown_inv_PostHello teardown_inv_PostPacket teardown_inv_handshake_tick
      teardown_inv_Disconnect teardown_inv_ConnectFail)

lemma teardown_inv_run: "teardown_inv c \<Longrightarrow> teardown_inv (run_events P c evs)"
  unfolding run_events_def
  by (induction evs arbitrary: c) (simp_all add: teardown_inv_step)

lemma teardown_inv_new: "teardown_inv (Client_new u)"
  by (simp add: teardown_inv_def Client_new_def teardown_upcalls_def)

text \<open>
  C5. \<open>Disconnect\<close> and \<open>ConnectFail\<close> share the one-shot \<open>_destroyed\<close>. After any
  sequence of operations on a constructed client, at most one \<open>OnDisconnect\<close> or
  \<open>OnConnectFail\<close> upcall has been made, and exactly one if \<open>_destroyed\<close> has left 0.
  While \<open>_destroyed\<close> is 0, a call of \<open>Disconnect\<close> or of \<open>ConnectFail\<close> makes
  its own upcall, which is then the only one. Once \<open>_destroyed\<close> is set, a call of
  either leaves the client as it is and makes no call at all.
\<close>

theorem teardown_upcall_once:
  "length (teardown_upcalls (run_events P (Client_new u) evs)) =
     (if destroyed (run_events P (Client_new u) evs) = 0 then 0 else 1) \<and>
   (destroyed (run_events P (Client_new u) evs) = 0 \<longrightarrow>
      teardown_upcalls (Disconnect (run_events P (Client_new u) evs) reason notify) =
        [OnDisconnect reason] \<and>
      teardown_upcalls (ConnectFail (run_events P (Client_new u) evs) err) =
        [OnConnectFail err]) \<and>
   (destroyed (run_events P (Client_new u) evs) \<noteq> 0 \<longrightarrow>
      Disconnect (run_events P (Client_new u) evs) reason notify =
        run_events P (Client_new u) evs \<and>
      ConnectFail (run_events P (Client_new u) evs) err = run_events P (Client_new u) evs)"
proof -
  let ?c = "run_events P (Client_new u) evs"
  have inv: "teardown_inv ?c" by (rule teardown_inv_run [OF teardown_inv_new])
  show ?thesis
  proof (cases "destroyed ?c = 0")
    case True
    with inv have "teardown_upcalls ?c = []" by (simp add: teardown_inv_def)
    with True show ?thesis
      by (simp add: Disconnect_first ConnectFail_first teardown_upcalls_def)
  next
    case False
    with inv have "destroyed ?c = 1" "length (teardown_upcalls ?c) = 1"
      by (auto simp: teardown_inv_def)
    then show ?thesis by (simp add: Disconnect_idle ConnectFail_idle)
  qed
qed

theorem teardown_upcall_once_witness:
  "teardown_upcalls (run_events example_params (Client_new example_client)
      [EvConnectFail 2, EvDisconnect 0 True, EvConnectFail 3]) = [OnConnectFail 2] \<and>
   destroyed (run_events example_params (Client_new example_client)
      [EvConnectFail 2, EvDisconnect 0 True, EvConnectFail 3]) \<noteq> 0 \<and>
   Disconnect (run_events example_params (Client_new example_client)
      [EvConnectFail 2, EvDisconnect 0 True, EvConnectFail 3]) 5 True =
     run_events example_params (Client_new example_client)
      [EvConnectFail 2, EvDisconnect 0 True, EvConnectFail 3] \<and>
   destroyed (run_events example_params (Client_new example_client) []) = 0 \<and>
   teardown_upcalls (Disconnect (run_events example_params (Client_new example_client) []) 5 True)
     = [OnDisconnect 5]"
proof -
  let ?evs = "[EvConnectFail 2, EvDisconnect 0 True, EvConnectFail 3]"
  have d: "destroyed (run_events example_params (Client_new example_client) ?evs) \<noteq> 0"
    by (simp add: run_events_def ConnectFail_def Disconnect_def Atomic_Set_destroyed_def
        Client_new_def called_def)
  have t: "teardown_upcalls (run_events example_params (Client_new example_client) ?evs)
      = [OnConnectFail 2]"
    by (simp add: run_events_def ConnectFail_def Disconnect_def Atomic_Set_destroyed_def
        Client_new_def called_def teardown_upcalls_def)
  have z: "destroyed (run_events example_params (Client_new example_client) []) = 0"
    by (simp add: run_events_def Client_new_def)
  from teardown_upcall_once [of example_params example_client ?evs 5 True 0] d
    teardown_upcall_once [of example_params example_client "[]" 5 True 0] z t
  show ?thesis by simp
qed

section \<open>Answer and error packets\<close>

lemma answer_is_no_cookie:
  "length data = S2C_ANSWER_LEN \<Longrightarrow> length data \<noteq> S2C_COOKIE_LEN"
  by (simp add: S2C_ANSWER_LEN_def S2C_COOKIE_LEN_def ANSWER_BYTES_def PUBLIC_KEY_BYTES_def)

lemma error_is_no_cookie_or_answer:
  "length data = S2C_ERROR_LEN \<Longrightarrow>
   length data \<noteq> S2C_COOKIE_LEN \<and> length data \<noteq> S2C_ANSWER_LEN"
  by (simp add: S2C_ERROR_LEN_def S2C_ANSWER_LEN_def S2C_COOKIE_LEN_def ANSWER_BYTES_def
      PUBLIC_KEY_BYTES_def)

lemma OnRead_answer:
  assumes "\<not> connected_flag c" "length data = S2C_ANSWER_LEN" "data ! 0 = S2C_ANSWER"
  shows "OnRead P c e src data =
     (if server_addr c = src \<and> addr_port (server_addr c) < server_session_port data then
        (case env_process_answer e (answer_bytes data) of
           None \<Rightarrow> c
         | Some key_hash \<Rightarrow>
             (case env_key_encryption e key_hash (session_key c) of
                None \<Rightarrow> c
              | Some enc \<Rightarrow>
                  called (c\<lparr>auth_enc := Some enc, connected_flag := True,
                    server_addr := (server_addr c)\<lparr>addr_port := server_session_port data\<rparr>\<rparr>)
                    [OnConnect]))
      else c)"
  using assms answer_is_no_cookie [of data] by (simp add: OnRead_def)

text \<open>
  C1. For an \<open>S2C_ANSWER\<close> packet of the correct length read while the client is not
  connected: the client becomes connected exactly when the packet comes from the server
  address, the advertised session port is greater than the port of the server address
  and both \<open>ProcessAnswer\<close> and \<open>KeyEncryption\<close> succeed. When it becomes connected,
  the encryption state is the key derived from the answer's key hash and the session
  key, the port of the server address is the advertised session port, and \<open>OnConnect\<close>
  is the one call made. When it does not, the client is unchanged.
\<close>

theorem answer_connects_only_when_valid:
  assumes "\<not> connected_flag c" "length data = S2C_ANSWER_LEN" "data ! 0 = S2C_ANSWER"
  shows "(connected_flag (OnRead P c e src data) \<longleftrightarrow>
            src = server_addr c \<and>
            addr_port (server_addr c) < server_session_port data \<and>
            (\<exists>key_hash enc. env_process_answer e (answer_bytes data) = Some key_hash \<and>
               env_key_encryption e key_hash (session_key c) = Some enc)) \<and>
         (connected_flag (OnRead P c e src data) \<longrightarrow>
            (\<exists>key_hash. env_process_answer e (answer_bytes data) = Some key_hash \<and>
               auth_enc (OnRead P c e src data) =
                 env_key_encryption e key_hash (session_key c)) \<and>
            server_addr (OnRead P c e src data) =
              (server_addr c)\<lparr>addr_port := server_session_port data\<rparr> \<and>
            trace (OnRead P c e src data) = trace c @ [OnConnect]) \<and>
         (\<not> connected_flag (OnRead P c e src data) \<longrightarrow> OnRead P c e src data = c)"
  using assms(1)
  by (auto simp: OnRead_answer [OF assms] called_def split: option.splits)

theorem answer_connects_only_when_valid_witness:
  "\<not> connected_flag example_client \<and> length example_answer = S2C_ANSWER_LEN \<and>
   example_answer ! 0 = S2C_ANSWER \<and>
   connected_flag (OnRead example_params example_client example_env
     (server_addr example_client) example_answer) \<and>
   addr_port (server_addr example_client) < server_session_port example_answer \<and>
   addr_port (server_addr (OnRead example_params example_client example_env
     (server_addr example_client) example_answer)) = 5001 \<and>
   \<not> connected_flag (OnRead example_params example_client example_env
     \<lparr>addr_ip = 2, addr_port = 5000\<rparr> example_answer) \<and>
   OnRead example_params example_client example_env
     \<lparr>addr_ip = 2, addr_port = 5000\<rparr> example_answer = example_client"
proof -
  have h: "\<not> connected_flag example_client" "length example_answer = S2C_ANSWER_LEN"
    "example_answer ! 0 = S2C_ANSWER"
    by (simp_all add: example_client_def Client_new_def example_answer_def S2C_ANSWER_LEN_def
        ANSWER_BYTES_def PUBLIC_KEY_BYTES_def)
  have p: "server_session_port example_answer = 5001"
    by (simp add: example_answer_def server_session_port_def getLE16_def)
  have a: "server_addr example_client = \<lparr>addr_ip = 1, addr_port = 5000\<rparr>"
    by (simp add: example_client_def Client_new_def)
  have k: "env_process_answer example_env (answer_bytes example_answer) = Some (replicate 4 7)"
    "env_key_encryption example_env (replicate 4 7) (session_key example_client)
       = Some (replicate 4 7)"
    by (simp_all add: example_env_def answer_bytes_def example_answer_def ANSWER_BYTES_def
        PUBLIC_KEY_BYTES_def example_client_def Client_new_def)
  show ?thesis
    using answer_connects_only_when_valid [OF h, of example_params example_env
        "server_addr example_client"]
      answer_connects_only_when_valid [OF h, of example_params example_env
        "\<lparr>addr_ip = 2, addr_port = 5000\<rparr>"] h p a k
    by simp
qed

lemma OnRead_error:
  assumes "\<not> connected_flag c" "length data = S2C_ERROR_LEN" "data ! 0 = S2C_ERROR"
  shows "OnRead P c e src data =
     (if server_addr c = src \<and> ERR_NUM_CLIENT_ERRORS P < uint (data ! 1)
      then ConnectFail c (uint (data ! 1)) else c)"
  using assms error_is_no_cookie_or_answer [of data]
  by (simp add: OnRead_def Let_def)

text \<open>
  C2. The claim: every \<open>S2C_ERROR\<close> packet of the correct length read before the
  client is connected fails the connection through \<open>OnConnectFail\<close> with the reported
  code. The source first tests \<open>err <= ERR_NUM_CLIENT_ERRORS\<close> and ignores such a packet.
  Amended: for a packet from the server address, read while the client is neither
  connected nor torn down, a code greater than \<open>ERR_NUM_CLIENT_ERRORS\<close> tears the client
  down with the calls \<open>TransportDisconnected\<close>, \<open>OnConnectFail\<close> of that code and
  \<open>Close\<close>, and a code of at most \<open>ERR_NUM_CLIENT_ERRORS\<close> leaves the client unchanged.
\<close>

theorem error_packet_fails_connection:
  assumes "\<not> connected_flag c" "length data = S2C_ERROR_LEN" "data ! 0 = S2C_ERROR"
    and "src = server_addr c" "destroyed c = 0"
  shows "(ERR_NUM_CLIENT_ERRORS P < uint (data ! 1) \<longrightarrow>
            trace (OnRead P c e src data) =
              trace c @ [TransportDisconnected, OnConnectFail (uint (data ! 1)), Close] \<and>
            destroyed (OnRead P c e src data) = 1 \<and> kill_flag (OnRead P c e src data)) \<and>
         (uint (data ! 1) \<le> ERR_NUM_CLIENT_ERRORS P \<longrightarrow> OnRead P c e src data = c)"
  using assms(4,5) by (simp add: OnRead_error [OF assms(1-3)] ConnectFail_first)

text \<open>
  The claim fails on the error packet with code 0: the packet is ignored, and no
  \<open>OnConnectFail\<close> is made.
\<close>

theorem error_packet_ignored_counterexample:
  "\<not> connected_flag example_client \<and> length example_error = S2C_ERROR_LEN \<and>
   example_error ! 0 = S2C_ERROR \<and> destroyed example_client = 0 \<and>
   OnConnectFail (uint (example_error ! 1)) \<notin>
     set (trace (OnRead example_params example_client example_env
       (server_addr example_client) example_error)) \<and>
   OnRead example_params example_client example_env
       (server_addr example_client) example_error = example_client"
  by (simp add: OnRead_def Let_def example_client_def Client_new_def example_error_def
      S2C_ERROR_LEN_def S2C_ANSWER_LEN_def S2C_COOKIE_LEN_def ANSWER_BYTES_def
      PUBLIC_KEY_BYTES_def example_params_def S2C_ERROR_def S2C_COOKIE_def S2C_ANSWER_def)

theorem error_packet_fails_connection_witness:
  "\<not> connected_flag example_client \<and> length server_full_error = S2C_ERROR_LEN \<and>
   server_full_error ! 0 = S2C_ERROR \<and> destroyed example_client = 0 \<and>
   ERR_NUM_CLIENT_ERRORS example_params < uint (server_full_error ! 1) \<and>
   trace (OnRead example_params example_client example_env
       (server_addr example_client) server_full_error) =
     [TransportDisconnected, OnConnectFail 166, Close] \<and>
   uint (example_error ! 1) \<le> ERR_NUM_CLIENT_ERRORS example_params \<and>
   OnRead example_params example_client example_env
       (server_addr example_client) example_error = example_client"
proof -
  have h: "\<not> connected_flag example_client" "length server_full_error = S2C_ERROR_LEN"
    "server_full_error ! 0 = S2C_ERROR"
    by (simp_all add: example_client_def Client_new_def server_full_error_def S2C_ERROR_LEN_def)
  have h': "length example_error = S2C_ERROR_LEN" "example_error ! 0 = S2C_ERROR"
    by (simp_all add: example_error_def S2C_ERROR_LEN_def)
  have d: "destroyed example_client = 0" "trace example_client = []"
    by (simp_all add: example_client_def Client_new_def)
  have n: "ERR_NUM_CLIENT_ERRORS example_params < uint (server_full_error ! 1)"
    "uint (server_full_error ! 1) = 166"
    "uint (example_error ! 1) \<le> ERR_NUM_CLIENT_ERRORS example_params"
    by (simp_all add: example_params_def server_full_error_def example_error_def)
  show ?thesis
    using error_packet_fails_connection [OF h refl d(1), of example_params example_env]
      error_packet_fails_connection [OF h(1) h' refl d(1), of example_params example_env]
      h d n h'
    by simp
qed

section \<open>The maximum payload size\<close>

lemma max_payload_called [simp]: "max_payload_bytes (called c cs) = max_payload_bytes c"
  by (simp add: called_def)

lemma max_payload_ConnectFail [simp]: "max_payload_bytes (ConnectFail c err) = max_payload_bytes c"
  by (simp add: ConnectFail_def Atomic_Set_destroyed_def Let_def)

lemma max_payload_Disconnect [simp]:
  "max_payload_bytes (Disconnect c reason notify) = max_payload_bytes c"
  by (simp add: Disconnect_def Atomic_Set_destroyed_def Let_def)

lemma max_payload_OnRead: "max_payload_bytes (OnRead P c e src data) = max_payload_bytes c"
  by (simp add: OnRead_def Let_def split: option.splits)

lemma max_payload_PostHello: "max_payload_bytes (fst (PostHello c e)) = max_payload_bytes c"
  by (simp add: PostHello_def)

lemma max_payload_PostPacket: "max_payload_bytes (fst (PostPacket c e b)) = max_payload_bytes c"
  by (simp add: PostPacket_def Let_def split: option.splits)

lemma max_payload_handshake_tick:
  "max_payload_bytes (fst (handshake_tick P c L e)) = max_payload_bytes c"
  using max_payload_PostHello [of c e]
  by (auto simp: handshake_tick_def Let_def split: prod.splits)

lemma max_payload_OnInternal:
  "max_payload_bytes (OnInternal P c e data bytes) =
     (if data ! 0 = IOP_S2C_MTU_SET P \<and> bytes = IOP_S2C_MTU_SET_LEN P \<and>
         max_payload_bytes c < ucast (getLE16 (data ! 1) (data ! 2))
      then ucast (getLE16 (data ! 1) (data ! 2)) else max_payload_bytes c)"
  by (simp add: OnInternal_def Let_def UpdateTimeSynch_frame)

lemma max_payload_step: "max_payload_bytes c \<le> max_payload_bytes (step P c ev)"
  by (cases ev)
    (auto simp: OnUnreachable_def max_payload_OnRead max_payload_OnInternal
      max_payload_PostHello max_payload_PostPacket max_payload_handshake_tick
      intro: less_imp_le)

lemma max_payload_run: "max_payload_bytes c \<le> max_payload_bytes (run_events P c evs)"
  unfolding run_events_def
proof (induction evs arbitrary: c)
  case Nil
  show ?case by simp
next
  case (Cons ev evs)
  have "max_payload_bytes c \<le> max_payload_bytes (step P c ev)" by (rule max_payload_step)
  also have "\<dots> \<le> max_payload_bytes (foldl (step P) (step P c ev) evs)" by (rule Cons.IH)
  finally show ?case by simp
qed

text \<open>
  C4. \<open>_max_payload_bytes\<close> never decreases: it is at least as large after any
  sequence of operations as before. An \<open>IOP_S2C_MTU_SET\<close> message of the right length
  replaces it by the value it carries when that value is strictly greater and leaves it
  alone otherwise, and every other internal message leaves it alone.
\<close>

theorem max_payload_bytes_never_decreases:
  "max_payload_bytes c \<le> max_payload_bytes (run_events P c evs) \<and>
   (data ! 0 = IOP_S2C_MTU_SET P \<and> bytes = IOP_S2C_MTU_SET_LEN P \<longrightarrow>
      max_payload_bytes (OnInternal P c e data bytes) =
        (if max_payload_bytes c < ucast (getLE16 (data ! 1) (data ! 2))
         then ucast (getLE16 (data ! 1) (data ! 2)) else max_payload_bytes c)) \<and>
   (\<not> (data ! 0 = IOP_S2C_MTU_SET P \<and> bytes = IOP_S2C_MTU_SET_LEN P) \<longrightarrow>
      max_payload_bytes (OnInternal P c e data bytes) = max_payload_bytes c)"
  by (simp add: max_payload_run max_payload_OnInternal)

theorem max_payload_bytes_never_decreases_witness:
  "mtu_set_1450 ! 0 = IOP_S2C_MTU_SET example_params \<and>
   max_payload_bytes example_client = 1400 \<and>
   max_payload_bytes (OnInternal example_params example_client example_env mtu_set_1450 3) = 1450 \<and>
   max_payload_bytes (OnInternal example_params example_client example_env mtu_set_1200 3) = 1400 \<and>
   max_payload_bytes (OnInternal example_params example_client example_env mtu_set_1450 2) = 1400 \<and>
   max_payload_bytes example_client \<le> max_payload_bytes (run_events example_params example_client
     [EvOnInternal example_env mtu_set_1450 3, EvOnInternal example_env mtu_set_1200 3,
      EvDisconnect 0 True])"
proof -
  have h: "mtu_set_1450 ! 0 = IOP_S2C_MTU_SET example_params"
    "mtu_set_1200 ! 0 = IOP_S2C_MTU_SET example_params"
    "(3::u32) = IOP_S2C_MTU_SET_LEN example_params"
    "(2::u32) \<noteq> IOP_S2C_MTU_SET_LEN example_params"
    by (simp_all add: mtu_set_1450_def mtu_set_1200_def example_params_def)
  have v: "ucast (getLE16 (mtu_set_1450 ! 1) (mtu_set_1450 ! 2)) = (1450::u32)"
    "ucast (getLE16 (mtu_set_1200 ! 1) (mtu_set_1200 ! 2)) = (1200::u32)"
    by (simp_all add: mtu_set_1450_def mtu_set_1200_def getLE16_def)
  have m: "max_payload_bytes example_client = 1400"
    by (simp add: example_client_def Client_new_def)
  show ?thesis
    using max_payload_bytes_never_decreases [of example_client example_params
        "[EvOnInternal example_env mtu_set_1450 3, EvOnInternal example_env mtu_set_1200 3,
          EvDisconnect 0 True]" mtu_set_1450 3 example_env]
      max_payload_bytes_never_decreases [of example_client example_params "[]" mtu_set_1200 3
        example_env]
      max_payload_bytes_never_decreases [of example_client example_params "[]" mtu_set_1450 2
        example_env]
      h v m
    by simp
qed

section \<open>The handshake loop\<close>

lemma live_client_not_destroyed:
  "\<not> kill_flag (run_events P (Client_new u) evs) \<Longrightarrow>
   destroyed (run_events P (Client_new u) evs) = 0"
  using teardown_inv_run [OF teardown_inv_new, of P u evs]
  by (auto simp: teardown_inv_def)

lemma handshake_tick_live:
  assumes "\<not> kill_flag c" "\<not> connected_flag c" "destroyed c = 0"
  shows "handshake_tick P c L e =
     (if CONNECT_TIMEOUT P \<le> env_now e - first_hello_post L then
        (c\<lparr>destroyed := 1, kill_flag := True,
           trace := trace c @ [TransportDisconnected, OnConnectFail (ERR_CLIENT_TIMEOUT P), Close]\<rparr>,
         Return False)
      else if hello_post_interval L \<le> env_now e - last_hello_post L then
        (if env_acquire_ok e \<and> env_post_ok e then
           (c\<lparr>trace := trace c @ [Post (server_addr c) (hello_packet c) True, OnTick (env_now e)]\<rparr>,
            Continue (L\<lparr>last_hello_post := env_now e,
              hello_post_interval := hello_post_interval L * 2\<rparr>))
         else
           (c\<lparr>destroyed := 1, kill_flag := True,
              trace := trace c
                @ (if env_acquire_ok e then [Post (server_addr c) (hello_packet c) False] else [])
                @ [TransportDisconnected, OnConnectFail (ERR_CLIENT_BROKEN_PIPE P), Close]\<rparr>,
            Return False))
      else (c\<lparr>trace := trace c @ [OnTick (env_now e)]\<rparr>, Continue L))"
  using assms
  by (simp add: handshake_tick_def PostHello_def Let_def ConnectFail_first called_def)

text \<open>
  C8. The claim: on every tick of the handshake loop, a connect timeout fails the
  connection with the timeout error and stops the thread; otherwise, when the repost
  interval has passed, the hello packet is reposted and the interval doubled, starting
  from the initial interval. The source also lets the repost fail. Amended, for a tick
  of a constructed client that is neither killed nor connected: on a timeout the thread
  returns and the calls are \<open>TransportDisconnected\<close>, \<open>OnConnectFail\<close> of the timeout
  error and \<open>Close\<close>; otherwise, when the interval has passed and both the buffer
  and the post succeed, the hello packet is posted, \<open>last_hello_post\<close> becomes the
  current time and the interval is doubled; when the interval has passed and the buffer
  or the post fails, the thread returns and the connection fails with the broken-pipe
  error; when the interval has not passed, the local variables are unchanged. The loop
  starts with the initial hello-post interval.
\<close>

theorem handshake_tick_timeout_or_repost:
  assumes "c = run_events P (Client_new u) evs" "\<not> kill_flag c" "\<not> connected_flag c"
  shows
    "(CONNECT_TIMEOUT P \<le> env_now e - first_hello_post L \<longrightarrow>
        snd (handshake_tick P c L e) = Return False \<and>
        trace (fst (handshake_tick P c L e)) =
          trace c @ [TransportDisconnected, OnConnectFail (ERR_CLIENT_TIMEOUT P), Close]) \<and>
     (env_now e - first_hello_post L < CONNECT_TIMEOUT P \<and>
      hello_post_interval L \<le> env_now e - last_hello_post L \<and>
      env_acquire_ok e \<and> env_post_ok e \<longrightarrow>
        snd (handshake_tick P c L e) =
          Continue (L\<lparr>last_hello_post := env_now e,
            hello_post_interval := hello_post_interval L * 2\<rparr>) \<and>
        trace (fst (handshake_tick P c L e)) =
          trace c @ [Post (server_addr c) (hello_packet c) True, OnTick (env_now e)]) \<and>
     (env_now e - first_hello_post L < CONNECT_TIMEOUT P \<and>
      hello_post_interval L \<le> env_now e - last_hello_post L \<and>
      \<not> (env_acquire_ok e \<and> env_post_ok e) \<longrightarrow>
        snd (handshake_tick P c L e) = Return False \<and>
        trace (fst (handshake_tick P c L e)) =
          trace c
            @ (if env_acquire_ok e then [Post (server_addr c) (hello_packet c) False] else [])
            @ [TransportDisconnected, OnConnectFail (ERR_CLIENT_BROKEN_PIPE P), Close]) \<and>
     (env_now e - first_hello_post L < CONNECT_TIMEOUT P \<and>
      env_now e - last_hello_post L < hello_post_interval L \<longrightarrow>
        snd (handshake_tick P c L e) = Continue L \<and>
        trace (fst (handshake_tick P c L e)) = trace c @ [OnTick (env_now e)]) \<and>
     hello_post_interval (hello_loop_start P start_time) = INITIAL_HELLO_POST_INTERVAL P"
proof -
  have d: "destroyed c = 0"
    using assms(1,2) live_client_not_destroyed [of P u evs] by simp
  show ?thesis
    by (auto simp: handshake_tick_live [OF assms(2,3) d] hello_loop_start_def)
qed

lemma example_client_constructed:
  "example_client = run_events example_params (Client_new example_client) []"
  by (simp add: run_events_def example_client_def Client_new_def)

lemma example_tick_inputs:
  "\<not> kill_flag example_client" "\<not> connected_flag example_client"
  "trace example_client = []"
  "env_now example_env - first_hello_post (hello_loop_start example_params 700)
     < CONNECT_TIMEOUT example_params"
  "hello_post_interval (hello_loop_start example_params 700)
     \<le> env_now example_env - last_hello_post (hello_loop_start example_params 700)"
  "env_now failing_post_env = env_now example_env"
  "env_acquire_ok example_env" "env_post_ok example_env"
  "env_acquire_ok failing_post_env" "\<not> env_post_ok failing_post_env"
  by (simp_all add: example_client_def Client_new_def example_env_def failing_post_env_def
      hello_loop_start_def example_params_def)

theorem handshake_tick_timeout_or_repost_witness:
  "\<not> kill_flag example_client \<and> \<not> connected_flag example_client \<and>
   snd (handshake_tick example_params example_client (hello_loop_start example_params 700)
     example_env) =
     Continue ((hello_loop_start example_params 700)\<lparr>last_hello_post := 1000,
       hello_post_interval := 400\<rparr>) \<and>
   snd (handshake_tick example_params example_client (hello_loop_start example_params 700)
     failing_post_env) = Return False \<and>
   snd (handshake_tick example_params example_client (hello_loop_start example_params 900)
     example_env) = Continue (hello_loop_start example_params 900) \<and>
   snd (handshake_tick example_params example_client (hello_loop_start example_params 1000)
     (example_env\<lparr>env_now := 7000\<rparr>)) = Return False \<and>
   trace (fst (handshake_tick example_params example_client
     (hello_loop_start example_params 1000) (example_env\<lparr>env_now := 7000\<rparr>))) =
     [TransportDisconnected, OnConnectFail 2, Close]"
proof -
  note t = handshake_tick_timeout_or_repost [OF example_client_constructed
      example_tick_inputs(1,2), of _ _ 0]
  have v: "env_now example_env = 1000"
    "hello_post_interval (hello_loop_start example_params 700) * 2 = 400"
    "env_now example_env - first_hello_post (hello_loop_start example_params 900)
       < CONNECT_TIMEOUT example_params"
    "env_now example_env - last_hello_post (hello_loop_start example_params 900)
       < hello_post_interval (hello_loop_start example_params 900)"
    "CONNECT_TIMEOUT example_params \<le> env_now (example_env\<lparr>env_now := 7000\<rparr>)
       - first_hello_post (hello_loop_start example_params 1000)"
    "ERR_CLIENT_TIMEOUT example_params = 2"
    by (simp_all add: example_env_def hello_loop_start_def example_params_def)
  show ?thesis
    using t [of example_env "hello_loop_start example_params 700"]
      t [of failing_post_env "hello_loop_start example_params 700"]
      t [of example_env "hello_loop_start example_params 900"]
      t [of "example_env\<lparr>env_now := 7000\<rparr>" "hello_loop_start example_params 1000"]
      example_tick_inputs v
    by simp
qed

text \<open>
  The claim fails on a tick whose repost is due and whose \<open>Post\<close> is refused: the hello
  packet is not accepted, the loop does not go on with a doubled interval, and the
  connection fails with the broken-pipe error.
\<close>

theorem repost_failure_counterexample:
  "\<not> kill_flag example_client \<and> \<not> connected_flag example_client \<and>
   env_now failing_post_env - first_hello_post (hello_loop_start example_params 700)
     < CONNECT_TIMEOUT example_params \<and>
   hello_post_interval (hello_loop_start example_params 700)
     \<le> env_now failing_post_env - last_hello_post (hello_loop_start example_params 700) \<and>
   snd (handshake_tick example_params example_client (hello_loop_start example_params 700)
     failing_post_env) \<noteq>
     Continue ((hello_loop_start example_params 700)\<lparr>last_hello_post := env_now failing_post_env,
       hello_post_interval := hello_post_interval (hello_loop_start example_params 700) * 2\<rparr>) \<and>
   Post (server_addr example_client) (hello_packet example_client) True \<notin>
     set (trace (fst (handshake_tick example_params example_client
       (hello_loop_start example_params 700) failing_post_env))) \<and>
   OnConnectFail (ERR_CLIENT_BROKEN_PIPE example_params) \<in>
     set (trace (fst (handshake_tick example_params example_client
       (hello_loop_start example_params 700) failing_post_env)))"
proof -
  have d: "destroyed example_client = 0" by (simp add: example_client_def Client_new_def)
  show ?thesis
    using example_tick_inputs example_tick_inputs(4) [THEN not_le [THEN iffD2]]
    by (simp add: handshake_tick_live [OF example_tick_inputs(1,2) d])
qed

section \<open>Clock synchronization\<close>

text \<open>
  The defining equations of the two selection loops are applied one step at a time.
\<close>

declare fill_best.simps [simp del] fight_best.simps [simp del]

text \<open>
  The ring stays in range: with \<open>MAX_TS_SAMPLES\<close> slots, a count of at most
  \<open>MAX_TS_SAMPLES\<close> and a positive \<open>MAX_TS_SAMPLES\<close>, storing a sample keeps the
  number of slots and the bound on the count, and leaves the next index inside the ring.
\<close>

lemma ts_insert_in_range:
  assumes "length (ts_samples c) = unat (MAX_TS_SAMPLES P)"
    and "ts_sample_count c \<le> MAX_TS_SAMPLES P" and "0 < MAX_TS_SAMPLES P"
  shows "length (ts_samples (ts_insert P c t r d)) = unat (MAX_TS_SAMPLES P) \<and>
         ts_sample_count (ts_insert P c t r d) \<le> MAX_TS_SAMPLES P \<and>
         ts_next_index (ts_insert P c t r d) < MAX_TS_SAMPLES P"
  using assms
  by (auto simp: ts_insert_def Let_def inc_le word_mod_less_divisor)

text \<open>
  The chosen samples are among the samples held, and there is at least one of them.
\<close>

lemma fill_best_props:
  "fill_best smp cnt num ii hr hi best = (ii', hr', hi', best') \<Longrightarrow>
   set best \<subseteq> {..<cnt} \<Longrightarrow> length best \<le> ii \<Longrightarrow> ii \<le> cnt \<Longrightarrow> best \<noteq> [] \<Longrightarrow>
   set best' \<subseteq> {..<cnt} \<and> length best' \<le> cnt \<and> best' \<noteq> []"
proof (induction smp cnt num ii hr hi best rule: fill_best.induct)
  case (1 smp cnt num ii hr hi best)
  show ?case
  proof (cases "ii < cnt \<and> length best < num")
    case False
    with "1.prems" show ?thesis
      by (simp add: fill_best.simps [of smp cnt num ii hr hi best])
  next
    case True
    note t = True
    show ?thesis
    proof (cases "smp_rtt (sample_at smp ii) > hr")
      case True
      with t "1.prems"(1) have
        "fill_best smp cnt num (ii + 1) (smp_rtt (sample_at smp ii)) ii (best @ [ii])
           = (ii', hr', hi', best')"
        by (simp add: fill_best.simps [of smp cnt num ii hr hi best] Let_def)
      with "1.IH"(1) [OF t refl True] t "1.prems" show ?thesis by auto
    next
      case False
      with t "1.prems"(1) have
        "fill_best smp cnt num (ii + 1) hr hi (best @ [ii]) = (ii', hr', hi', best')"
        by (simp add: fill_best.simps [of smp cnt num ii hr hi best] Let_def)
      with "1.IH"(2) [OF t refl False] t "1.prems" show ?thesis by auto
    qed
  qed
qed

lemma fight_best_props:
  "set best \<subseteq> {..<cnt} \<Longrightarrow>
   set (fight_best smp cnt ii hr hi best) \<subseteq> {..<cnt} \<and>
   length (fight_best smp cnt ii hr hi best) = length best"
proof (induction smp cnt ii hr hi best rule: fight_best.induct)
  case (1 smp cnt ii hr hi best)
  show ?case
  proof (cases "ii < cnt")
    case False
    with "1.prems" show ?thesis
      by (simp add: fight_best.simps [of smp cnt ii hr hi best])
  next
    case True
    note t = True
    show ?thesis
    proof (cases "smp_rtt (sample_at smp ii) < hr")
      case False
      with t "1.IH"(2) [OF t refl False "1.prems"] show ?thesis
        by (simp add: fight_best.simps [of smp cnt ii hr hi best] Let_def)
    next
      case True
      obtain hr1 hi1 where f:
        "find_highest smp (best[hi := ii]) 0 (smp_rtt (sample_at smp ii)) hi = (hr1, hi1)"
        by (cases "find_highest smp (best[hi := ii]) 0 (smp_rtt (sample_at smp ii)) hi")
      have s: "set (best[hi := ii]) \<subseteq> {..<cnt}"
        using set_update_subset_insert [of best hi ii] "1.prems" t by auto
      from "1.IH"(1) [OF t refl True refl f [symmetric] s] t True f show ?thesis
        by (simp add: fight_best.simps [of smp cnt ii hr hi best] Let_def)
    qed
  qed
qed

lemma BestSamples_props:
  assumes "1 < ts_sample_count c"
  shows "set (BestSamples P c) \<subseteq> {..<unat (ts_sample_count c)} \<and>
         BestSamples P c \<noteq> [] \<and> length (BestSamples P c) \<le> unat (ts_sample_count c)"
proof -
  let ?smp = "ts_samples c" and ?cnt = "unat (ts_sample_count c)"
  have cnt: "1 < ?cnt" using assms by (simp add: word_less_nat_alt)
  obtain ii hr hi best where f:
    "fill_best ?smp ?cnt (unat (num_samples_of P c)) 1 (smp_rtt (sample_at ?smp 0)) 0 [0]
       = (ii, hr, hi, best)"
    by (metis prod_cases4)
  from fill_best_props [OF f] cnt
  have b: "set best \<subseteq> {..<?cnt}" "length best \<le> ?cnt" "best \<noteq> []" by auto
  have "BestSamples P c = fight_best ?smp ?cnt ii hr hi best"
    using f by (simp add: BestSamples_def Let_def)
  with fight_best_props [OF b(1), of ?smp ii hr hi] b show ?thesis by auto
qed


lemma s32_of_s64_of_sint: "(ucast (word_of_int (sint (d :: s32)) :: s64) :: s32) = d"
proof -
  have "(ucast (word_of_int (sint d) :: s64) :: s32) = word_of_int (sint d)"
    by (rule ucast_down_wi) (simp add: is_down)
  then show ?thesis by simp
qed

lemma s32_of_s64_of_s32: "(ucast (scast (d :: s32) :: s64) :: s32) = d"
proof -
  have e: "(scast d :: s64) = word_of_int (sint d)" by (rule scast_eq)
  show ?thesis unfolding e by (rule s32_of_s64_of_sint)
qed

lemma sint_s64_of_nat: "n < 2 ^ 32 \<Longrightarrow> sint (of_nat n :: s64) = int n"
proof -
  assume n: "n < 2 ^ 32"
  have "int n < int (2 ^ 32)" using n by (simp only: of_nat_less_iff)
  then have "int n < 2 ^ 63" by simp
  then have t: "signed_take_bit 63 (int n) = int n"
    by (intro signed_take_bit_int_eq_self) simp_all
  have "(of_nat n :: s64) = word_of_int (int n)" by simp
  then have "sint (of_nat n :: s64) = sint (word_of_int (int n) :: s64)" by (rule arg_cong)
  also have "\<dots> = signed_take_bit 63 (int n)" by (simp only: sint_sbintrunc') simp
  finally show ?thesis using t by simp
qed

lemma sint_s64_of_s32: "sint (scast (d :: s32) :: s64) = sint d"
  by (rule sint_up_scast) (simp add: is_up)

lemma s32_product_range:
  assumes "n < 2 ^ 32"
  shows "- (2 ^ 63) \<le> int n * sint (d :: s32)" and "int n * sint (d :: s32) < 2 ^ 63"
proof -
  have n: "0 \<le> int n" "int n \<le> 2 ^ 32"
  proof -
    show "0 \<le> int n" by simp
    have "int n \<le> int (2 ^ 32)" using assms by (simp only: of_nat_le_iff)
    then show "int n \<le> 2 ^ 32" by simp
  qed
  have lo: "- (2 ^ 31) \<le> sint d" using sint_ge [of d] by simp
  have hi: "sint d < 2 ^ 31" using sint_lt [of d] by simp
  have "int n * (- (2 ^ 31)) \<le> int n * sint d" by (rule mult_left_mono [OF lo n(1)])
  moreover have "int n * 2 ^ 31 \<le> 2 ^ 32 * 2 ^ 31" by (rule mult_right_mono [OF n(2)]) simp
  ultimately show "- (2 ^ 63) \<le> int n * sint d" by simp
  show "int n * sint d < 2 ^ 63"
  proof (cases "n = 0")
    case True
    then show ?thesis by simp
  next
    case False
    then have "int n * sint d < int n * 2 ^ 31" using hi by simp
    also have "\<dots> \<le> 2 ^ 32 * 2 ^ 31" by (rule mult_right_mono [OF n(2)]) simp
    finally show ?thesis by simp
  qed
qed

lemma sint_s64_product:
  assumes "n < 2 ^ 32"
  shows "sint (of_nat n * scast (d :: s32) :: s64) = int n * sint d"
proof -
  have "sint (of_nat n * scast d :: s64) = signed_take_bit 63 (int n * sint d)"
    by (simp add: sint_word_mult sint_s64_of_nat [OF assms] sint_s64_of_s32)
  also have "\<dots> = int n * sint d"
    by (rule signed_take_bit_int_eq_self) (use s32_product_range [OF assms, of d] in simp_all)
  finally show ?thesis .
qed

lemma trunc_div_product:
  assumes "0 < (n :: int)"
  shows "sgn (n * k) * sgn n * (\<bar>n * k\<bar> div \<bar>n\<bar>) = k"
proof -
  have "\<bar>n * k\<bar> div \<bar>n\<bar> = \<bar>k\<bar>" using assms by (simp add: abs_mult)
  moreover have "sgn (n * k) * sgn n = sgn k" using assms by (simp add: sgn_mult)
  ultimately show ?thesis by (simp only: sgn_mult_abs)
qed

lemma s64_div_product:
  assumes "0 < n" "n < 2 ^ 32"
  shows "s64_div (of_nat n * scast (d :: s32)) (of_nat n) = scast d"
proof -
  have "0 < int n" using assms(1) by simp
  then have "sgn (int n * sint d) * sgn (int n) * (\<bar>int n * sint d\<bar> div \<bar>int n\<bar>) = sint d"
    by (rule trunc_div_product)
  then show ?thesis
    unfolding s64_div_def sint_s64_product [OF assms(2)] sint_s64_of_nat [OF assms(2)]
    by (simp only: scast_eq)
qed

lemma double_to_s32_of_int: "double_to_s32 (rat_of_int z) = word_of_int z"
  by (simp add: double_to_s32_def)

lemma constant_delta_foldl:
  assumes "\<forall>i \<in> set best. smp_delta (sample_at smp i) = d"
  shows "foldl (\<lambda>s i. s + scast (smp_delta (sample_at smp i))) a best
           = a + of_nat (length best) * (scast d :: s64)"
  using assms by (induction best arbitrary: a) (simp_all add: algebra_simps)

lemma constant_sum_delta_avg:
  "\<forall>i \<in> set best. smp_delta (sample_at smp i) = d \<Longrightarrow>
   sum_delta_avg smp best = of_nat (length best) * scast d"
  unfolding sum_delta_avg_def by (simp add: constant_delta_foldl [of best smp d])

lemma constant_sum_delta_of:
  assumes "\<forall>i \<in> set best. smp_delta (sample_at smp i) = d" "best \<noteq> []"
  shows "sum_delta_of smp best = of_nat (length best) * scast d"
proof -
  from assms(2) obtain b bs where b: "best = b # bs" by (cases best) auto
  with assms(1) have "\<forall>i \<in> set bs. smp_delta (sample_at smp i) = d"
    "smp_delta (sample_at smp b) = d" by auto
  then show ?thesis
    by (simp add: sum_delta_of_def b constant_delta_foldl [of bs smp d] algebra_simps)
qed

lemma zero_terms_foldl:
  "\<forall>i \<in> set best. f i = (0 :: s64) \<Longrightarrow> foldl (\<lambda>s i. s + f i) a best = a"
  by (induction best arbitrary: a) simp_all

lemma constant_delta_numerator:
  assumes "\<forall>i \<in> set best. smp_delta (sample_at smp i) = d" "best \<noteq> []"
  shows "B0_numerator smp best base_time = 0"
proof -
  have "\<forall>i \<in> set best. when_term smp best base_time i * delta_term smp best i = 0"
  proof
    fix i assume "i \<in> set best"
    with assms(1) have "smp_delta (sample_at smp i) = d" by simp
    then have "delta_term smp best i = 0"
      by (simp add: delta_term_def constant_sum_delta_of [OF assms] mult.commute)
    then show "when_term smp best base_time i * delta_term smp best i = 0" by simp
  qed
  then show ?thesis
    unfolding B0_numerator_def by (rule zero_terms_foldl)
qed


lemma drift_B0_zero: "drift_B0 0 denominator = 0"
  by (simp add: drift_B0_def)

lemma drift_B1_constant:
  assumes "0 < n" "sint sum_delta = int n * sint (d :: s32)"
  shows "drift_B1 sum_delta 0 sum_when n = d"
proof -
  have "(rat_of_int (int n * sint d) - 0 * rat_of_int (sint sum_when)) / rat_of_int (int n)
      = rat_of_int (sint d)"
    using assms(1) by simp
  then have "drift_B1 sum_delta 0 sum_when n = double_to_s32 (rat_of_int (sint d))"
    by (simp only: drift_B1_def assms(2))
  also have "\<dots> = word_of_int (sint d)" by (rule double_to_s32_of_int)
  finally show ?thesis by simp
qed

lemma constant_avg_delta:
  assumes "\<forall>i \<in> set best. smp_delta (sample_at smp i) = d" "best \<noteq> []"
    "length best < 2 ^ 32"
  shows "avg_delta_of smp best = d"
proof -
  from assms(2) have n: "0 < length best" by simp
  show ?thesis
    by (simp only: avg_delta_of_def constant_sum_delta_avg [OF assms(1)]
        s64_div_product [OF n assms(3)] s32_of_s64_of_s32)
qed

lemma ts_B0_average_block: "ts_B0 (average_block c best delta) = 0"
  by (simp add: average_block_def Let_def)

lemma ts_B1_average_block:
  "ts_B1 (average_block c best delta) = avg_delta_of (ts_samples c) best"
  by (simp add: average_block_def Let_def)

lemma UpdateTimeSynch_single:
  "ts_sample_count (ts_insert P c pong_time rtt delta) \<le> 1 \<Longrightarrow>
   UpdateTimeSynch P c pong_time rtt delta =
     (ts_insert P c pong_time rtt delta)\<lparr>ts_B0 := 0, ts_B1 := delta\<rparr>"
  unfolding UpdateTimeSynch_def Let_def by (simp only: if_True)

lemma UpdateTimeSynch_average:
  assumes "\<not> ts_sample_count (ts_insert P c pong_time rtt delta) \<le> 1"
    and "of_nat (length (BestSamples P (ts_insert P c pong_time rtt delta)))
           < MIN_DRIFT_SAMPLES P"
  shows "UpdateTimeSynch P c pong_time rtt delta =
     average_block (ts_insert P c pong_time rtt delta)
       (BestSamples P (ts_insert P c pong_time rtt delta)) delta"
  unfolding UpdateTimeSynch_def Let_def by (simp only: assms if_False if_True)

lemma UpdateTimeSynch_fallback:
  assumes "\<not> ts_sample_count (ts_insert P c pong_time rtt delta) \<le> 1"
    and "\<not> of_nat (length (BestSamples P (ts_insert P c pong_time rtt delta)))
           < MIN_DRIFT_SAMPLES P"
    and "sint (B0_denominator (ts_samples (ts_insert P c pong_time rtt delta))
           (BestSamples P (ts_insert P c pong_time rtt delta)) (base_time_of P pong_time)) \<le> 0"
  shows "UpdateTimeSynch P c pong_time rtt delta =
     (average_block (ts_insert P c pong_time rtt delta)
       (BestSamples P (ts_insert P c pong_time rtt delta)) delta)\<lparr>ts_B0 := 0, ts_B1 := delta\<rparr>"
  unfolding UpdateTimeSynch_def Let_def by (simp only: assms if_False if_True)

lemma UpdateTimeSynch_regression:
  assumes "\<not> ts_sample_count (ts_insert P c pong_time rtt delta) \<le> 1"
    and "\<not> of_nat (length (BestSamples P (ts_insert P c pong_time rtt delta)))
           < MIN_DRIFT_SAMPLES P"
    and "\<not> sint (B0_denominator (ts_samples (ts_insert P c pong_time rtt delta))
           (BestSamples P (ts_insert P c pong_time rtt delta)) (base_time_of P pong_time)) \<le> 0"
  shows "UpdateTimeSynch P c pong_time rtt delta =
     (average_block (ts_insert P c pong_time rtt delta)
       (BestSamples P (ts_insert P c pong_time rtt delta)) delta)
     \<lparr>ts_base := base_time_of P pong_time,
      ts_B0 := drift_B0
        (B0_numerator (ts_samples (ts_insert P c pong_time rtt delta))
           (BestSamples P (ts_insert P c pong_time rtt delta)) (base_time_of P pong_time))
        (B0_denominator (ts_samples (ts_insert P c pong_time rtt delta))
           (BestSamples P (ts_insert P c pong_time rtt delta)) (base_time_of P pong_time)),
      ts_B1 := drift_B1
        (sum_delta_of (ts_samples (ts_insert P c pong_time rtt delta))
           (BestSamples P (ts_insert P c pong_time rtt delta)))
        (drift_B0
          (B0_numerator (ts_samples (ts_insert P c pong_time rtt delta))
             (BestSamples P (ts_insert P c pong_time rtt delta)) (base_time_of P pong_time))
          (B0_denominator (ts_samples (ts_insert P c pong_time rtt delta))
             (BestSamples P (ts_insert P c pong_time rtt delta)) (base_time_of P pong_time)))
        (sum_when_of (ts_samples (ts_insert P c pong_time rtt delta))
           (BestSamples P (ts_insert P c pong_time rtt delta)) (base_time_of P pong_time))
        (length (BestSamples P (ts_insert P c pong_time rtt delta)))\<rparr>"
  unfolding UpdateTimeSynch_def Let_def by (simp only: assms if_False if_True)

text \<open>
  C6. The claim: whenever the regression's denominator is not positive, the published
  state is \<open>B0 = 0\<close> and \<open>B1\<close> the mean of the deltas of the chosen samples. The
  source stores \<open>_ts_B1 = delta\<close> in that branch, the delta of the sample just received.
  Amended: when the regression is reached (more than one sample is held and at least
  \<open>MIN_DRIFT_SAMPLES\<close> are chosen) and its denominator is not positive, the published
  state is \<open>B0 = 0\<close> and \<open>B1\<close> the delta passed to \<open>UpdateTimeSynch\<close>.
\<close>

theorem denominator_fallback_takes_new_delta:
  assumes "1 < ts_sample_count (ts_insert P c pong_time rtt delta)"
    and "MIN_DRIFT_SAMPLES P \<le>
           of_nat (length (BestSamples P (ts_insert P c pong_time rtt delta)))"
    and "sint (B0_denominator (ts_samples (ts_insert P c pong_time rtt delta))
           (BestSamples P (ts_insert P c pong_time rtt delta)) (base_time_of P pong_time)) \<le> 0"
  shows "ts_B0 (UpdateTimeSynch P c pong_time rtt delta) = 0 \<and>
         ts_B1 (UpdateTimeSynch P c pong_time rtt delta) = delta"
proof -
  let ?c1 = "ts_insert P c pong_time rtt delta"
  have a: "\<not> ts_sample_count ?c1 \<le> 1"
    using assms(1) by (simp only: not_le)
  have b: "\<not> of_nat (length (BestSamples P ?c1)) < MIN_DRIFT_SAMPLES P"
    using assms(2) by (simp only: not_less)
  show ?thesis by (simp add: UpdateTimeSynch_fallback [OF a b assms(3)])
qed

text \<open>
  C7. If every sample that the calculation holds, the new one included, has the same
  delta \<open>d\<close>, then \<open>UpdateTimeSynch\<close> publishes \<open>B0 = 0\<close> and \<open>B1 = d\<close>. This holds
  on each path through the function, so in particular when at least
  \<open>MIN_DRIFT_SAMPLES\<close> samples are chosen and their \<open>when\<close> values are strictly
  monotonic: the numerator of the slope is then 0, and the quotient of the delta sum by
  the number of chosen samples is \<open>d\<close> exactly. Every value on the way is an integer
  below \<open>2 ^ 63\<close>, or the exact quotient \<open>d\<close>.
\<close>

theorem constant_delta_gives_zero_drift:
  assumes "\<forall>i < unat (ts_sample_count (ts_insert P c pong_time rtt d)).
             smp_delta (sample_at (ts_samples (ts_insert P c pong_time rtt d)) i) = d"
  shows "ts_B0 (UpdateTimeSynch P c pong_time rtt d) = 0 \<and>
         ts_B1 (UpdateTimeSynch P c pong_time rtt d) = d"
proof (cases "ts_sample_count (ts_insert P c pong_time rtt d) \<le> 1")
  case True
  then show ?thesis by (simp add: UpdateTimeSynch_single)
next
  case False
  let ?c1 = "ts_insert P c pong_time rtt d"
  let ?best = "BestSamples P ?c1"
  let ?smp = "ts_samples ?c1"
  let ?n = "length ?best"
  let ?base = "base_time_of P pong_time"
  from False have m: "1 < ts_sample_count ?c1" by (simp only: not_le)
  note b = BestSamples_props [OF m, of P]
  have all: "\<forall>i \<in> set ?best. smp_delta (sample_at ?smp i) = d"
    using b assms by auto
  have ne: "?best \<noteq> []" using b by simp
  have "unat (ts_sample_count ?c1) < 2 ^ 32"
    using unsigned_less [of "ts_sample_count ?c1", where ?'a = nat] by simp
  with b have n: "?n < 2 ^ 32" "0 < ?n" by auto
  have avg: "avg_delta_of ?smp ?best = d" by (rule constant_avg_delta [OF all ne n(1)])
  show ?thesis
  proof (cases "of_nat ?n < MIN_DRIFT_SAMPLES P")
    case True
    show ?thesis
      by (simp add: UpdateTimeSynch_average [OF False True] ts_B0_average_block
          ts_B1_average_block avg)
  next
    case enough: False
    show ?thesis
    proof (cases "sint (B0_denominator ?smp ?best ?base) \<le> 0")
      case True
      show ?thesis by (simp add: UpdateTimeSynch_fallback [OF False enough True])
    next
      case positive: False
      have num: "B0_numerator ?smp ?best ?base = 0"
        by (rule constant_delta_numerator [OF all ne])
      have sd: "sint (sum_delta_of ?smp ?best) = int ?n * sint d"
        by (simp only: constant_sum_delta_of [OF all ne] sint_s64_product [OF n(1)])
      have B1: "drift_B1 (sum_delta_of ?smp ?best) 0 (sum_when_of ?smp ?best ?base) ?n = d"
        by (rule drift_B1_constant [OF n(2) sd])
      show ?thesis
        by (simp add: UpdateTimeSynch_regression [OF False enough positive] num
            drift_B0_zero B1)
    qed
  qed
qed


lemma burst_facts:
  "ts_sample_count (ts_insert example_params burst_client 110000 14600 100) = 16"
  "BestSamples example_params (ts_insert example_params burst_client 110000 14600 100) = [0, 1, 2, 3]"
  "MIN_DRIFT_SAMPLES example_params = 4"
  "B0_denominator (ts_samples (ts_insert example_params burst_client 110000 14600 100))
     [0, 1, 2, 3] (base_time_of example_params 110000) = 0"
  by code_simp+

theorem denominator_fallback_takes_new_delta_witness:
  "(1 :: u32) < ts_sample_count (ts_insert example_params burst_client 110000 14600 100) \<and>
   length (BestSamples example_params (ts_insert example_params burst_client 110000 14600 100)) = 4 \<and>
   sint (B0_denominator (ts_samples (ts_insert example_params burst_client 110000 14600 100))
     (BestSamples example_params (ts_insert example_params burst_client 110000 14600 100))
     (base_time_of example_params 110000)) = 0 \<and>
   ts_B0 (UpdateTimeSynch example_params burst_client 110000 14600 100) = 0 \<and>
   ts_B1 (UpdateTimeSynch example_params burst_client 110000 14600 100) = 100"
proof -
  let ?c1 = "ts_insert example_params burst_client 110000 14600 100"
  have h1: "1 < ts_sample_count ?c1" by (simp only: burst_facts) simp
  have h2: "MIN_DRIFT_SAMPLES example_params \<le> of_nat (length (BestSamples example_params ?c1))"
    by (simp only: burst_facts) simp
  have d: "B0_denominator (ts_samples ?c1) (BestSamples example_params ?c1)
      (base_time_of example_params 110000) = 0"
    by (simp only: burst_facts)
  have h3: "sint (B0_denominator (ts_samples ?c1) (BestSamples example_params ?c1)
      (base_time_of example_params 110000)) \<le> 0"
    by (simp only: d) simp
  have l: "length (BestSamples example_params ?c1) = 4" by (simp only: burst_facts) simp
  from denominator_fallback_takes_new_delta [OF h1 h2 h3] h1 l d show ?thesis by simp
qed

text \<open>
  The claim fails when the four chosen samples were received in the same millisecond:
  the denominator is 0, the chosen deltas are 7, 9, 11 and 13, so their mean is 10 in
  exact and in the source's truncated arithmetic, and the new sample, which is not
  chosen, has delta 100. The published \<open>B1\<close> is 100.
\<close>

theorem denominator_fallback_mean_counterexample:
  "sint (B0_denominator (ts_samples (ts_insert example_params burst_client 110000 14600 100))
     (BestSamples example_params (ts_insert example_params burst_client 110000 14600 100))
     (base_time_of example_params 110000)) \<le> 0 \<and>
   MIN_DRIFT_SAMPLES example_params \<le>
     of_nat (length (BestSamples example_params
       (ts_insert example_params burst_client 110000 14600 100))) \<and>
   mean_delta (ts_samples (ts_insert example_params burst_client 110000 14600 100))
     (BestSamples example_params (ts_insert example_params burst_client 110000 14600 100)) = 10 \<and>
   avg_delta_of (ts_samples (ts_insert example_params burst_client 110000 14600 100))
     (BestSamples example_params (ts_insert example_params burst_client 110000 14600 100)) = 10 \<and>
   ts_B1 (UpdateTimeSynch example_params burst_client 110000 14600 100) = 100"
  by code_simp

lemma steady_facts:
  "ts_sample_count (ts_insert example_params steady_client 76000 22 7) = 16"
  "length (ts_samples (ts_insert example_params steady_client 76000 22 7)) = 64"
  "list_all (\<lambda>s. smp_delta s = 7) (ts_samples (ts_insert example_params steady_client 76000 22 7))"
  "0 < sint (B0_denominator (ts_samples (ts_insert example_params steady_client 76000 22 7))
     (BestSamples example_params (ts_insert example_params steady_client 76000 22 7))
     (base_time_of example_params 76000))"
  "MIN_DRIFT_SAMPLES example_params \<le> of_nat (length (BestSamples example_params
     (ts_insert example_params steady_client 76000 22 7)))"
  by code_simp+

theorem constant_delta_gives_zero_drift_witness:
  "ts_sample_count (ts_insert example_params steady_client 76000 22 7) = 16 \<and>
   list_all (\<lambda>s. smp_delta s = 7)
     (ts_samples (ts_insert example_params steady_client 76000 22 7)) \<and>
   0 < sint (B0_denominator (ts_samples (ts_insert example_params steady_client 76000 22 7))
     (BestSamples example_params (ts_insert example_params steady_client 76000 22 7))
     (base_time_of example_params 76000)) \<and>
   ts_B0 (UpdateTimeSynch example_params steady_client 76000 22 7) = 0 \<and>
   ts_B1 (UpdateTimeSynch example_params steady_client 76000 22 7) = 7"
proof -
  let ?c1 = "ts_insert example_params steady_client 76000 22 7"
  have h: "\<forall>i < unat (ts_sample_count ?c1). smp_delta (sample_at (ts_samples ?c1) i) = 7"
  proof (intro allI impI)
    fix i assume "i < unat (ts_sample_count ?c1)"
    then have "i < length (ts_samples ?c1)" by (simp add: steady_facts)
    then have "ts_samples ?c1 ! i \<in> set (ts_samples ?c1)" by (rule nth_mem)
    with steady_facts(3) show "smp_delta (sample_at (ts_samples ?c1) i) = 7"
      by (simp add: list_all_iff sample_at_def)
  qed
  from constant_delta_gives_zero_drift [OF h] steady_facts show ?thesis by simp
qed

end
